theory Spec2Isabelle
  imports Complex_Main "HOL-Library.Sublist" "HOL-Library.Multiset"
begin

section \<open>JavaScript numbers and strings\<close>

text \<open>
  The numbers that occur in the pagination code are integers, the two infinities and
  \<open>NaN\<close>. Fractions only occur as the intermediate quotient inside
  \<open>Math.ceil(a / b)\<close>, which is modelled as one operation. Integers are kept exact
  (no rounding above \<open>2^53\<close>), and negative zero is identified with zero.
  A string is a list of code units, one \<open>char\<close> each.
\<close>

datatype jsnum = Num int | PosInf | NegInf | NaN

text \<open>Truthiness of a number: \<open>0\<close> and \<open>NaN\<close> are falsy.\<close>

fun truthy :: "jsnum \<Rightarrow> bool" where
  "truthy (Num n) = (n \<noteq> 0)"
| "truthy NaN = False"
| "truthy _ = True"

text \<open>\<open>a < b\<close>: every comparison with \<open>NaN\<close> is false.\<close>

fun js_lt :: "jsnum \<Rightarrow> jsnum \<Rightarrow> bool" where
  "js_lt NaN _ = False"
| "js_lt _ NaN = False"
| "js_lt (Num a) (Num b) = (a < b)"
| "js_lt (Num a) PosInf = True"
| "js_lt (Num a) NegInf = False"
| "js_lt PosInf _ = False"
| "js_lt NegInf NegInf = False"
| "js_lt NegInf _ = True"

definition js_gt :: "jsnum \<Rightarrow> jsnum \<Rightarrow> bool" where
  "js_gt a b = js_lt b a"

text \<open>\<open>a >= b\<close> of JavaScript: false as soon as one side is \<open>NaN\<close>.\<close>

fun js_ge :: "jsnum \<Rightarrow> jsnum \<Rightarrow> bool" where
  "js_ge NaN _ = False"
| "js_ge _ NaN = False"
| "js_ge a b = (\<not> js_lt a b)"

definition js_le :: "jsnum \<Rightarrow> jsnum \<Rightarrow> bool" where
  "js_le a b = js_ge b a"

text \<open>\<open>Math.max\<close> and \<open>Math.min\<close> return \<open>NaN\<close> when an argument is \<open>NaN\<close>.\<close>

fun Math_max :: "jsnum \<Rightarrow> jsnum \<Rightarrow> jsnum" where
  "Math_max NaN _ = NaN"
| "Math_max _ NaN = NaN"
| "Math_max a b = (if js_lt a b then b else a)"

fun Math_min :: "jsnum \<Rightarrow> jsnum \<Rightarrow> jsnum" where
  "Math_min NaN _ = NaN"
| "Math_min _ NaN = NaN"
| "Math_min a b = (if js_lt b a then b else a)"

text \<open>\<open>a - b\<close>; opposite infinities cancel to \<open>NaN\<close>.\<close>

fun js_sub :: "jsnum \<Rightarrow> jsnum \<Rightarrow> jsnum" where
  "js_sub NaN _ = NaN"
| "js_sub _ NaN = NaN"
| "js_sub (Num a) (Num b) = Num (a - b)"
| "js_sub (Num a) PosInf = NegInf"
| "js_sub (Num a) NegInf = PosInf"
| "js_sub PosInf PosInf = NaN"
| "js_sub PosInf _ = PosInf"
| "js_sub NegInf NegInf = NaN"
| "js_sub NegInf _ = NegInf"

text \<open>The sign of a number that is not \<open>NaN\<close>: \<open>-1\<close>, \<open>0\<close> or \<open>1\<close>.\<close>

fun js_sign :: "jsnum \<Rightarrow> int" where
  "js_sign (Num a) = sgn a"
| "js_sign PosInf = 1"
| "js_sign NegInf = -1"
| "js_sign NaN = 0"

text \<open>\<open>a * b\<close>; zero times an infinity is \<open>NaN\<close>.\<close>

fun js_mul :: "jsnum \<Rightarrow> jsnum \<Rightarrow> jsnum" where
  "js_mul NaN _ = NaN"
| "js_mul _ NaN = NaN"
| "js_mul (Num a) (Num b) = Num (a * b)"
| "js_mul a b =
     (if js_sign a * js_sign b = 0 then NaN
      else if js_sign a * js_sign b > 0 then PosInf else NegInf)"

text \<open>
  \<open>Math.ceil(a / b)\<close>: division by zero gives an infinity of the sign of \<open>a\<close>, or
  \<open>NaN\<close> for \<open>0 / 0\<close>; a finite number divided by an infinity is zero. The quotient
  of two integers is exact here (a double rounds it when the integers exceed \<open>2^53\<close>),
  and a zero divisor counts as positive zero.
\<close>

fun Math_ceil_div :: "jsnum \<Rightarrow> jsnum \<Rightarrow> jsnum" where
  "Math_ceil_div NaN _ = NaN"
| "Math_ceil_div _ NaN = NaN"
| "Math_ceil_div (Num a) (Num b) =
     (if b = 0 then (if a = 0 then NaN else if a > 0 then PosInf else NegInf)
      else Num (- ((- a) div b)))"
| "Math_ceil_div (Num a) _ = Num 0"
| "Math_ceil_div a (Num b) =
     (if js_sign a * (if b < 0 then -1 else 1) > 0 then PosInf else NegInf)"
| "Math_ceil_div _ _ = NaN"

subsection \<open>parseInt with radix 10\<close>

text \<open>A character range \<open>[lo-hi]\<close> of a regular expression, by character code.\<close>

definition in_range :: "char \<Rightarrow> char \<Rightarrow> char \<Rightarrow> bool" where
  "in_range lo hi c = ((of_char lo :: nat) \<le> of_char c \<and> (of_char c :: nat) \<le> of_char hi)"

definition is_digit :: "char \<Rightarrow> bool" where
  "is_digit c = in_range (CHR ''0'') (CHR ''9'') c"

definition digit_val :: "char \<Rightarrow> int" where
  "digit_val c = int (of_char c) - int (of_char (CHR ''0''))"

text \<open>White space that \<open>parseInt\<close> skips: tab, LF, VT, FF, CR, space, NBSP.\<close>

definition is_space :: "char \<Rightarrow> bool" where
  "is_space c = (of_char c \<in> {9, 10, 11, 12, 13, 32, 160 :: nat})"

text \<open>The value of a run of decimal digits, most significant first.\<close>

definition digits_val :: "string \<Rightarrow> int" where
  "digits_val ds = foldl (\<lambda>acc c. 10 * acc + digit_val c) 0 ds"

text \<open>
  \<open>parseInt(s, 10)\<close>: skip leading white space, read an optional sign, then the longest
  run of digits; no digit at all gives \<open>NaN\<close>, and what follows the digits is ignored.
  The value of the digits is kept exact: JavaScript rounds it to a double above
  \<open>2^53\<close> and gives an infinity for a run of more than some 300 digits, and it reads
  \<open>-0\<close> as negative zero.
\<close>

definition parseInt10 :: "string \<Rightarrow> jsnum" where
  "parseInt10 s =
     (let t = dropWhile is_space s;
          neg = (t \<noteq> [] \<and> hd t = CHR ''-'');
          u = (if t \<noteq> [] \<and> (hd t = CHR ''-'' \<or> hd t = CHR ''+'') then tl t else t);
          z = takeWhile is_digit u
      in if z = [] then NaN
         else Num ((if neg then -1 else 1) * digits_val z))"

text \<open>
  \<open>v || d\<close> for a query value: an absent value and the empty string are falsy.
\<close>

definition or_default :: "string option \<Rightarrow> string \<Rightarrow> string" where
  "or_default v d = (case v of None \<Rightarrow> d | Some s \<Rightarrow> if s = [] then d else s)"

section \<open>The Pagination parameter decorator\<close>

text \<open>The query of a request, as far as pagination reads it.\<close>

record query =
  q_page :: "string option"
  q_limit :: "string option"

record PaginationParams =
  page :: jsnum
  limit :: jsnum
  skip :: jsnum

text \<open>First variant: conditional expressions.\<close>

definition Pagination :: "query \<Rightarrow> PaginationParams" where
  "Pagination q =
     (let page = parseInt10 (or_default (q_page q) ''1'');
          limit = parseInt10 (or_default (q_limit q) ''10'');
          validPage = (if js_lt page (Num 1) then Num 1 else page);
          validLimit = (if js_lt limit (Num 1) then Num 10
                        else if js_gt limit (Num 100) then Num 100 else limit)
      in \<lparr>page = validPage, limit = validLimit,
          skip = js_mul (js_sub validPage (Num 1)) validLimit\<rparr>)"

text \<open>
  Second variant: \<open>Math.max\<close> and \<open>Math.min\<close>. Its sort, order, search and filter
  fields are copied from the query and do not depend on page or limit.
\<close>

definition Pagination2 :: "query \<Rightarrow> PaginationParams" where
  "Pagination2 q =
     (let page = Math_max (Num 1) (parseInt10 (or_default (q_page q) ''1''));
          limit = Math_max (Num 1)
                    (Math_min (Num 100) (parseInt10 (or_default (q_limit q) ''10'')))
      in \<lparr>page = page, limit = limit, skip = js_mul (js_sub page (Num 1)) limit\<rparr>)"

text \<open>What the specification asks of a descriptor.\<close>

definition valid_params :: "PaginationParams \<Rightarrow> bool" where
  "valid_params p =
     (js_ge (page p) (Num 1) \<and> js_ge (limit p) (Num 1) \<and> js_le (limit p) (Num 100)
      \<and> skip p = js_mul (js_sub (page p) (Num 1)) (limit p) \<and> js_ge (skip p) (Num 0))"


section \<open>QueryHelper\<close>

text \<open>\<open>v || d\<close> for an optional number: undefined, \<open>0\<close> and \<open>NaN\<close> are falsy.\<close>

definition num_or :: "jsnum option \<Rightarrow> jsnum \<Rightarrow> jsnum" where
  "num_or v d = (case v of None \<Rightarrow> d | Some n \<Rightarrow> if truthy n then n else d)"

definition getPaginationOptions :: "jsnum option \<Rightarrow> jsnum option \<Rightarrow> PaginationParams" where
  "getPaginationOptions dto_page dto_limit =
     (let page = num_or dto_page (Num 1);
          limit = num_or dto_limit (Num 10)
      in \<lparr>page = page, limit = limit, skip = js_mul (js_sub page (Num 1)) limit\<rparr>)"

record PaginationMeta =
  meta_page :: jsnum
  meta_limit :: jsnum
  meta_total :: jsnum
  totalPages :: jsnum
  hasNextPage :: bool
  hasPreviousPage :: bool

definition buildMeta :: "jsnum \<Rightarrow> jsnum \<Rightarrow> jsnum \<Rightarrow> PaginationMeta" where
  "buildMeta page' limit' total' =
     (let totalPages = Math_ceil_div total' limit'
      in \<lparr>meta_page = page', meta_limit = limit', meta_total = total',
          totalPages = totalPages,
          hasNextPage = js_lt page' totalPages,
          hasPreviousPage = js_gt page' (Num 1)\<rparr>)"

datatype SortOrder = asc | desc

text \<open>\<open>buildOrderBy\<close>: the field to sort by (creation time by default) and the direction.\<close>

definition buildOrderBy :: "string option \<Rightarrow> SortOrder option \<Rightarrow> string \<times> SortOrder" where
  "buildOrderBy sortBy sortOrder =
     (let ord = (case sortOrder of None \<Rightarrow> desc | Some d \<Rightarrow> d)
      in case sortBy of
           None \<Rightarrow> (''createdAt'', ord)
         | Some f \<Rightarrow> if f = [] then (''createdAt'', ord) else (f, ord))"

text \<open>
  \<open>buildSearchWhere\<close>: \<open>None\<close> is the empty clause \<open>{}\<close>; \<open>Some cs\<close> is
  \<open>{OR: cs}\<close>, each element asking that a field contains the term, case-insensitively.
\<close>

definition buildSearchWhere :: "string option \<Rightarrow> string list \<Rightarrow> (string \<times> string) list option" where
  "buildSearchWhere searchTerm fields' =
     (case searchTerm of
        None \<Rightarrow> None
      | Some t \<Rightarrow> if t = [] \<or> fields' = [] then None
                  else Some (map (\<lambda>field. (field, t)) fields'))"

section \<open>The PaginationInterceptor\<close>

text \<open>
  What a handler returns, as the interceptor tells it apart: an object that has the keys
  \<open>data\<close> and \<open>total\<close> (each field possibly undefined), an array, or anything else.
\<close>

record 'a PaginationResponse =
  r_data :: "'a list option"
  r_total :: "jsnum option"
  r_page :: "jsnum option"
  r_totalPages :: "jsnum option"

datatype ('a, 'b) handler_result =
  WithDataTotal "'a PaginationResponse"
| ArrayResult "'a list"
| OtherResult 'b

record 'a PaginatedResult =
  data :: "'a list"
  meta :: PaginationMeta

datatype ('a, 'b) intercepted = Wrapped "'a PaginatedResult" | AsIs 'b

definition intercept :: "query \<Rightarrow> ('a, 'b) handler_result \<Rightarrow> ('a, 'b) intercepted" where
  "intercept q response =
     (let page = parseInt10 (or_default (q_page q) ''1'');
          limit = parseInt10 (or_default (q_limit q) ''10'')
      in case response of
           WithDataTotal r \<Rightarrow>
             (let currentPage = num_or (r_page r) page;
                  totalCount = num_or (r_total r) (Num 0);
                  total_pages = num_or (r_totalPages r) (Math_ceil_div totalCount limit)
              in Wrapped
                   \<lparr>data = (case r_data r of None \<Rightarrow> [] | Some d \<Rightarrow> d),
                    meta = \<lparr>meta_page = currentPage, meta_limit = limit,
                            meta_total = totalCount, totalPages = total_pages,
                            hasNextPage = js_lt currentPage total_pages,
                            hasPreviousPage = js_gt currentPage (Num 1)\<rparr>\<rparr>)
         | ArrayResult xs \<Rightarrow>
             Wrapped
               \<lparr>data = xs,
                meta = \<lparr>meta_page = page, meta_limit = limit,
                        meta_total = Num (int (length xs)), totalPages = Num 1,
                        hasNextPage = False, hasPreviousPage = False\<rparr>\<rparr>
         | OtherResult x \<Rightarrow> AsIs x)"


section \<open>The user table\<close>

datatype UserStatus = ACTIVE | INACTIVE | SUSPENDED | PENDING

text \<open>
  Modelled from the spec: the declaration of the user table is missing (the migrations
  at hand only add \<open>status\<close> and \<open>deletedAt\<close> to it). Its columns are the attributes
  the specification lists for a user: identifier, unique email, optional display name,
  hashed secret, status, soft-delete timestamp, creation and update timestamps. They
  agree with the fields of \<open>UserEntity\<close> and with the columns the service reads and
  writes. Timestamps are milliseconds; \<open>u_deletedAt = None\<close> is the SQL null of a live
  row.
\<close>

record user =
  u_id :: string
  u_email :: string
  u_name :: "string option"
  u_password :: string
  u_status :: UserStatus
  u_deletedAt :: "nat option"
  u_createdAt :: nat
  u_updatedAt :: nat

type_synonym user_table = "user list"

text \<open>
  The exceptions a caller can see: the three HTTP exceptions the services throw, and
  \<open>ClientError\<close> for an exception of a client library that no handler catches.
\<close>

datatype error = NotFound | Conflict | InternalServerError | ClientError

text \<open>
  A row as a JavaScript object: the list of its properties. This is what the database
  client hands to the service, with every column of the row.
\<close>

datatype jsval = VStr string | VNull | VDate nat | VStatus UserStatus

type_synonym js_object = "(string \<times> jsval) list"

definition user_object :: "user \<Rightarrow> js_object" where
  "user_object u =
     [(''id'', VStr (u_id u)),
      (''email'', VStr (u_email u)),
      (''name'', (case u_name u of None \<Rightarrow> VNull | Some n \<Rightarrow> VStr n)),
      (''password'', VStr (u_password u)),
      (''status'', VStatus (u_status u)),
      (''deletedAt'', (case u_deletedAt u of None \<Rightarrow> VNull | Some t \<Rightarrow> VDate t)),
      (''createdAt'', VDate (u_createdAt u)),
      (''updatedAt'', VDate (u_updatedAt u))]"

text \<open>
  \<open>excludePassword\<close>: the rest of the object after the property \<open>password\<close> is
  taken out; the entity is built from that rest by \<open>Object.assign\<close>.
\<close>

definition excludePassword :: "js_object \<Rightarrow> js_object" where
  "excludePassword obj = filter (\<lambda>(k, v). k \<noteq> ''password'') obj"

subsection \<open>The database client\<close>

text \<open>
  The queries of the service on the table. \<open>findUnique\<close> looks at every row;
  \<open>findFirst\<close> is called with \<open>deletedAt: null\<close> and sees live rows only.
  Connection failures are not modelled.
\<close>

definition findUnique_id :: "user_table \<Rightarrow> string \<Rightarrow> user option" where
  "findUnique_id tbl i = find (\<lambda>u. u_id u = i) tbl"

definition findUnique_email :: "user_table \<Rightarrow> string \<Rightarrow> user option" where
  "findUnique_email tbl e = find (\<lambda>u. u_email u = e) tbl"

definition findFirst_id_live :: "user_table \<Rightarrow> string \<Rightarrow> user option" where
  "findFirst_id_live tbl i = find (\<lambda>u. u_id u = i \<and> u_deletedAt u = None) tbl"


text \<open>
  \<open>create\<close> inserts a row; it throws (\<open>None\<close>) when the id or the email is taken,
  as the primary key and the unique index on the email demand.
\<close>

definition prisma_create :: "user_table \<Rightarrow> user \<Rightarrow> (user \<times> user_table) option" where
  "prisma_create tbl row =
     (if findUnique_id tbl (u_id row) \<noteq> None \<or> findUnique_email tbl (u_email row) \<noteq> None
      then None else Some (row, tbl @ [row]))"

text \<open>
  \<open>update({where: {id}, data})\<close> rewrites the row of that id and stamps its update time;
  it throws when there is no such row or when the new email belongs to another row.
\<close>

definition prisma_update ::
  "user_table \<Rightarrow> string \<Rightarrow> (user \<Rightarrow> user) \<Rightarrow> nat \<Rightarrow> (user \<times> user_table) option" where
  "prisma_update tbl i change now =
     (case findUnique_id tbl i of
        None \<Rightarrow> None
      | Some u \<Rightarrow>
          (let f = (\<lambda>r. (change r)\<lparr>u_updatedAt := now\<rparr>)
           in if list_ex (\<lambda>r. u_id r \<noteq> i \<and> u_email r = u_email (f u)) tbl then None
              else Some (f u, map (\<lambda>r. if u_id r = i then f r else r) tbl)))"

definition prisma_delete :: "user_table \<Rightarrow> string \<Rightarrow> (user \<times> user_table) option" where
  "prisma_delete tbl i =
     (case findUnique_id tbl i of
        None \<Rightarrow> None
      | Some u \<Rightarrow> Some (u, filter (\<lambda>r. u_id r \<noteq> i) tbl))"

subsection \<open>Search and listing\<close>

definition to_lower :: "char \<Rightarrow> char" where
  "to_lower c =
     (if in_range (CHR ''A'') (CHR ''Z'') c then char_of ((of_char c :: nat) + 32) else c)"

text \<open>\<open>s.includes(sub)\<close>: \<open>sub\<close> occurs in \<open>s\<close> as a contiguous run.\<close>

fun str_includes :: "'a list \<Rightarrow> 'a list \<Rightarrow> bool" where
  "str_includes [] sub = (sub = [])"
| "str_includes (c # cs) sub = (prefix sub (c # cs) \<or> str_includes cs sub)"

text \<open>The text columns a search condition can name.\<close>

definition text_column :: "string \<Rightarrow> user \<Rightarrow> string option" where
  "text_column field u =
     (if field = ''email'' then Some (u_email u)
      else if field = ''name'' then u_name u
      else if field = ''id'' then Some (u_id u)
      else if field = ''password'' then Some (u_password u)
      else None)"

text \<open>
  The pattern match of SQL: \<open>%\<close> stands for any run of characters, \<open>_\<close> for any one
  character. The escape character of a pattern is not modelled.
\<close>

fun like_match :: "string \<Rightarrow> string \<Rightarrow> bool" where
  "like_match [] s = (s = [])"
| "like_match (p # ps) s =
     (if p = CHR ''%''
      then like_match ps s \<or> (case s of [] \<Rightarrow> False | c # t \<Rightarrow> like_match (p # ps) t)
      else (case s of [] \<Rightarrow> False | c # t \<Rightarrow> (p = CHR ''_'' \<or> p = c) \<and> like_match ps t))"

text \<open>
  \<open>{contains: term, mode: 'insensitive'}\<close>: the database client sends the term between
  two \<open>%\<close> to a case-insensitive pattern match and does not escape the wildcards in
  the term; a null column matches nothing. Case is folded for ASCII letters.
\<close>

definition contains_insensitive :: "string \<times> string \<Rightarrow> user \<Rightarrow> bool" where
  "contains_insensitive c u =
     (case text_column (fst c) u of
        None \<Rightarrow> False
      | Some v \<Rightarrow> like_match (''%'' @ map to_lower (snd c) @ ''%'') (map to_lower v))"

definition matches_search :: "(string \<times> string) list option \<Rightarrow> user \<Rightarrow> bool" where
  "matches_search w u =
     (case w of None \<Rightarrow> True | Some cs \<Rightarrow> list_ex (\<lambda>c. contains_insensitive c u) cs)"

text \<open>
  \<open>skip\<close> and \<open>take\<close> of \<open>findMany\<close>: \<open>skip\<close> must be a non-negative integer and
  \<open>take\<close> an integer, or the client throws; a negative \<open>take\<close> counts from the end.
\<close>

definition window :: "jsnum \<Rightarrow> jsnum \<Rightarrow> 'a list \<Rightarrow> 'a list option" where
  "window skip' take' xs =
     (case (skip', take') of
        (Num s, Num t) \<Rightarrow>
          if s < 0 then None
          else if 0 \<le> t then Some (take (nat t) (drop (nat s) xs))
          else Some (rev (take (nat (- t)) (drop (nat s) (rev xs))))
      | _ \<Rightarrow> None)"

text \<open>
  The order of the rows is the database's: \<open>db_sort\<close> stands for its \<open>ORDER BY\<close>,
  which returns \<open>None\<close> when the column is unknown. It only rearranges rows.
\<close>

type_synonym sorter = "string \<times> SortOrder \<Rightarrow> user list \<Rightarrow> user list option"

definition rearranges :: "sorter \<Rightarrow> bool" where
  "rearranges db_sort = (\<forall>ob xs ys. db_sort ob xs = Some ys \<longrightarrow> mset ys = mset xs)"

text \<open>A sorter for examples: it keeps the order of insertion and knows every column.\<close>

definition insertion_order :: sorter where
  "insertion_order ob xs = Some xs"

definition findMany ::
  "sorter \<Rightarrow> user_table \<Rightarrow> (user \<Rightarrow> bool) \<Rightarrow> jsnum \<Rightarrow> jsnum \<Rightarrow> string \<times> SortOrder
     \<Rightarrow> user list option" where
  "findMany db_sort tbl where' skip' take' orderBy =
     (case db_sort orderBy (filter where' tbl) of
        None \<Rightarrow> None
      | Some rows \<Rightarrow> window skip' take' rows)"

definition count_where :: "user_table \<Rightarrow> (user \<Rightarrow> bool) \<Rightarrow> jsnum" where
  "count_where tbl where' = Num (int (length (filter where' tbl)))"


section \<open>UserService\<close>

text \<open>
  Modelled from the spec: the class \<open>CreateUserDto\<close> is missing; it has the three fields
  the service reads from it, the display name optional as in the entity.
\<close>

record CreateUserDto =
  c_email :: string
  c_name :: "string option"
  c_password :: string

record UpdateUserDto =
  upd_email :: "string option"
  upd_name :: "string option"
  upd_password :: "string option"

record PaginationWithSearchDto =
  dto_page :: "jsnum option"
  dto_limit :: "jsnum option"
  dto_sortBy :: "string option"
  dto_sortOrder :: "SortOrder option"
  dto_q :: "string option"

text \<open>
  The operations take what they read from outside as arguments: \<open>hash\<close> and
  \<open>compare\<close> for bcrypt, \<open>newId\<close> for the generated key of a new row, \<open>now\<close> for
  the clock. A mutating operation returns its result with the new table; an exception
  is \<open>Inl\<close> and leaves the table as it was.
\<close>

definition UserService_create ::
  "(string \<Rightarrow> string) \<Rightarrow> string \<Rightarrow> nat \<Rightarrow> user_table \<Rightarrow> CreateUserDto
     \<Rightarrow> error + (js_object \<times> user_table)" where
  "UserService_create hash newId now tbl createUserDto =
     (case findUnique_email tbl (c_email createUserDto) of
        Some existingUser \<Rightarrow> Inl Conflict
      | None \<Rightarrow>
          (case prisma_create tbl
                  \<lparr>u_id = newId, u_email = c_email createUserDto,
                   u_name = c_name createUserDto,
                   u_password = hash (c_password createUserDto),
                   u_status = ACTIVE, u_deletedAt = None,
                   u_createdAt = now, u_updatedAt = now\<rparr> of
             None \<Rightarrow> Inl InternalServerError
           | Some (u, tbl') \<Rightarrow> Inr (excludePassword (user_object u), tbl')))"

definition UserService_findAll ::
  "sorter \<Rightarrow> user_table \<Rightarrow> PaginationWithSearchDto \<Rightarrow> error + js_object PaginatedResult" where
  "UserService_findAll db_sort tbl dto =
     (let po = getPaginationOptions (dto_page dto) (dto_limit dto);
          searchWhere = buildSearchWhere (dto_q dto) [''email'', ''name''];
          orderBy = buildOrderBy (dto_sortBy dto) (dto_sortOrder dto);
          where' = (\<lambda>u. matches_search searchWhere u \<and> u_deletedAt u = None)
      in case findMany db_sort tbl where' (skip po) (limit po) orderBy of
           None \<Rightarrow> Inl InternalServerError
         | Some users \<Rightarrow>
             Inr \<lparr>data = map (\<lambda>u. excludePassword (user_object u)) users,
                  meta = buildMeta (page po) (limit po) (count_where tbl where')\<rparr>)"

definition UserService_findOne :: "user_table \<Rightarrow> string \<Rightarrow> error + js_object" where
  "UserService_findOne tbl i =
     (case findFirst_id_live tbl i of
        None \<Rightarrow> Inl NotFound
      | Some u \<Rightarrow> Inr (excludePassword (user_object u)))"


text \<open>
  The data of an update: a field that is undefined in the DTO is left as it is; the
  password is hashed and written only when the DTO has a non-empty one.
\<close>

definition updateData :: "(string \<Rightarrow> string) \<Rightarrow> UpdateUserDto \<Rightarrow> user \<Rightarrow> user" where
  "updateData hash updateUserDto u =
     u\<lparr>u_email := (case upd_email updateUserDto of None \<Rightarrow> u_email u | Some e \<Rightarrow> e),
       u_name := (case upd_name updateUserDto of None \<Rightarrow> u_name u | Some n \<Rightarrow> Some n),
       u_password :=
         (case upd_password updateUserDto of
            None \<Rightarrow> u_password u
          | Some p \<Rightarrow> if p = [] then u_password u else hash p)\<rparr>"

definition UserService_update ::
  "(string \<Rightarrow> string) \<Rightarrow> nat \<Rightarrow> user_table \<Rightarrow> string \<Rightarrow> UpdateUserDto
     \<Rightarrow> error + (js_object \<times> user_table)" where
  "UserService_update hash now tbl i updateUserDto =
     (case UserService_findOne tbl i of
        Inl e \<Rightarrow> Inl e
      | Inr _ \<Rightarrow>
          if (case upd_email updateUserDto of
                None \<Rightarrow> False
              | Some e \<Rightarrow>
                  e \<noteq> [] \<and>
                  (case findUnique_email tbl e of
                     None \<Rightarrow> False
                   | Some existingUser \<Rightarrow> u_id existingUser \<noteq> i))
          then Inl Conflict
          else
            (case prisma_update tbl i (updateData hash updateUserDto) now of
               None \<Rightarrow> Inl InternalServerError
             | Some (u, tbl') \<Rightarrow> Inr (excludePassword (user_object u), tbl')))"

definition UserService_remove :: "nat \<Rightarrow> user_table \<Rightarrow> string \<Rightarrow> error + user_table" where
  "UserService_remove now tbl i =
     (case UserService_findOne tbl i of
        Inl e \<Rightarrow> Inl e
      | Inr _ \<Rightarrow>
          (case prisma_update tbl i (\<lambda>u. u\<lparr>u_deletedAt := Some now\<rparr>) now of
             None \<Rightarrow> Inl InternalServerError
           | Some (u, tbl') \<Rightarrow> Inr tbl'))"

definition UserService_restore ::
  "nat \<Rightarrow> user_table \<Rightarrow> string \<Rightarrow> error + (js_object \<times> user_table)" where
  "UserService_restore now tbl i =
     (case findUnique_id tbl i of
        None \<Rightarrow> Inl NotFound
      | Some u \<Rightarrow>
          if u_deletedAt u = None then Inl Conflict
          else
            (case prisma_update tbl i (\<lambda>u. u\<lparr>u_deletedAt := None\<rparr>) now of
               None \<Rightarrow> Inl InternalServerError
             | Some (restoredUser, tbl') \<Rightarrow>
                 Inr (excludePassword (user_object restoredUser), tbl')))"

definition UserService_forceDelete :: "user_table \<Rightarrow> string \<Rightarrow> error + user_table" where
  "UserService_forceDelete tbl i =
     (case findUnique_id tbl i of
        None \<Rightarrow> Inl NotFound
      | Some u \<Rightarrow>
          (case prisma_delete tbl i of
             None \<Rightarrow> Inl InternalServerError
           | Some (d, tbl') \<Rightarrow> Inr tbl'))"




section \<open>RoleService\<close>

datatype Resource = USER | PERMISSION

datatype Action = CREATE | READ | UPDATE | DELETE

record PermissionDto =
  p_resource :: Resource
  p_action :: "Action list"

record CreateRoleDto =
  cr_name :: string
  cr_permissions :: "PermissionDto list option"

text \<open>
  Modelled from the spec: the class \<open>UpdateRoleDto\<close> is missing; the service reads an
  optional name and an optional permission list from it.
\<close>

record UpdateRoleDto =
  ur_name :: "string option"
  ur_permissions :: "PermissionDto list option"

text \<open>
  The two tables. Of a grant only the columns the service writes and the owning role are
  kept; its own key and its creation time are filled in by the database.
\<close>

record role =
  role_id :: string
  role_name :: string

record RolePermission =
  rp_roleId :: string
  rp_resource :: Resource
  rp_action :: Action

record role_db =
  roles :: "role list"
  role_permissions :: "RolePermission list"

text \<open>The flattening both operations apply to the submitted permissions.\<close>

definition flatten_permissions :: "PermissionDto list \<Rightarrow> (Resource \<times> Action) list" where
  "flatten_permissions ps = concat (map (\<lambda>p. map (\<lambda>a. (p_resource p, a)) (p_action p)) ps)"

definition grants_of :: "role_db \<Rightarrow> string \<Rightarrow> (Resource \<times> Action) list" where
  "grants_of db rid =
     map (\<lambda>g. (rp_resource g, rp_action g)) (filter (\<lambda>g. rp_roleId g = rid) (role_permissions db))"

definition new_grants :: "string \<Rightarrow> (Resource \<times> Action) list \<Rightarrow> RolePermission list" where
  "new_grants rid pairs = map (\<lambda>(r, a). \<lparr>rp_roleId = rid, rp_resource = r, rp_action = a\<rparr>) pairs"

text \<open>
  \<open>role.create\<close> with nested \<open>create\<close>: one transaction; it throws when the id or the
  name is taken or when two of the new grants are the same pair (the unique index on
  role, resource and action).
\<close>

definition prisma_role_create ::
  "role_db \<Rightarrow> string \<Rightarrow> string \<Rightarrow> (Resource \<times> Action) list \<Rightarrow> role_db option" where
  "prisma_role_create db newId name pairs =
     (if list_ex (\<lambda>r. role_id r = newId \<or> role_name r = name) (roles db) \<or> \<not> distinct pairs
      then None
      else Some \<lparr>roles = roles db @ [\<lparr>role_id = newId, role_name = name\<rparr>],
                 role_permissions = role_permissions db @ new_grants newId pairs\<rparr>)"

text \<open>
  \<open>role.update\<close>: it throws when no role has the id or when the new name belongs to
  another role. With \<open>permissions\<close> (\<open>deleteMany: {}\<close> then \<open>create\<close>) every grant of the
  role is deleted before the new ones are inserted, in the same transaction.
\<close>

definition prisma_role_update ::
  "role_db \<Rightarrow> string \<Rightarrow> string option \<Rightarrow> (Resource \<times> Action) list option \<Rightarrow> role_db option" where
  "prisma_role_update db rid name replace =
     (if \<not> list_ex (\<lambda>r. role_id r = rid) (roles db) then None
      else if (case name of None \<Rightarrow> False
               | Some n \<Rightarrow> list_ex (\<lambda>r. role_id r \<noteq> rid \<and> role_name r = n) (roles db))
      then None
      else if (case replace of None \<Rightarrow> False | Some pairs \<Rightarrow> \<not> distinct pairs) then None
      else Some
        \<lparr>roles = map (\<lambda>r. if role_id r = rid
                              then (case name of None \<Rightarrow> r | Some n \<Rightarrow> r\<lparr>role_name := n\<rparr>)
                              else r) (roles db),
         role_permissions =
           (case replace of
              None \<Rightarrow> role_permissions db
            | Some pairs \<Rightarrow>
                filter (\<lambda>g. rp_roleId g \<noteq> rid) (role_permissions db) @ new_grants rid pairs)\<rparr>)"

text \<open>
  The service has no handler of its own: an exception of the database client reaches
  the caller. An empty or absent permission list creates no grant. The operations
  return the new tables; the role they answer with is read from them.
\<close>

definition RoleService_create :: "string \<Rightarrow> role_db \<Rightarrow> CreateRoleDto \<Rightarrow> error + role_db" where
  "RoleService_create newId db dto =
     (let pairs = (case cr_permissions dto of
                     None \<Rightarrow> []
                   | Some ps \<Rightarrow> if length ps = 0 then [] else flatten_permissions ps)
      in case prisma_role_create db newId (cr_name dto) pairs of
           None \<Rightarrow> Inl ClientError
         | Some db' \<Rightarrow> Inr db')"

definition RoleService_update :: "role_db \<Rightarrow> string \<Rightarrow> UpdateRoleDto \<Rightarrow> error + role_db" where
  "RoleService_update db rid dto =
     (case prisma_role_update db rid (ur_name dto)
             (case ur_permissions dto of None \<Rightarrow> None | Some ps \<Rightarrow> Some (flatten_permissions ps)) of
        None \<Rightarrow> Inl ClientError
      | Some db' \<Rightarrow> Inr db')"

section \<open>FilesService and FilesController\<close>

record stored_object =
  o_name :: string
  o_etag :: string
  o_versionId :: "string option"
  o_size :: nat
  o_contentType :: "string option"

text \<open>
  The bucket: its objects in the order the listing yields them, and whether the store
  answers at all.
\<close>

record store =
  reachable :: bool
  objects :: "stored_object list"

datatype minio_error = MinioNotFound | MinioFailure

definition statObject :: "store \<Rightarrow> string \<Rightarrow> minio_error + stored_object" where
  "statObject st objectName =
     (if \<not> reachable st then Inl MinioFailure
      else case find (\<lambda>ob. o_name ob = objectName) (objects st) of
             None \<Rightarrow> Inl MinioNotFound
           | Some ob \<Rightarrow> Inr ob)"

definition listObjectsV2 :: "store \<Rightarrow> minio_error + stored_object list" where
  "listObjectsV2 st = (if \<not> reachable st then Inl MinioFailure else Inr (objects st))"

record files_config =
  bucketName :: string
  minioEndpoint :: string
  minioPort :: string
  minioUseSSL :: bool

record UploadResponse =
  f_bucket :: string
  f_objectName :: string
  f_etag :: string
  f_versionId :: "string option"
  f_size :: nat
  f_mimetype :: string
  f_url :: string

definition getFilePublicUrl :: "files_config \<Rightarrow> string \<Rightarrow> string" where
  "getFilePublicUrl cfg objectName =
     (if minioUseSSL cfg then ''https'' else ''http'') @ ''://'' @ minioEndpoint cfg @ '':''
       @ minioPort cfg @ ''/'' @ bucketName cfg @ ''/'' @ objectName"

text \<open>\<open>metaData?.['content-type'] || 'application/octet-stream'\<close>\<close>

definition mimetype_of :: "stored_object \<Rightarrow> string" where
  "mimetype_of stat = or_default (o_contentType stat) ''application/octet-stream''"

subsection \<open>Object names\<close>

text \<open>A non-negative integer as JavaScript prints it: decimal, no leading zero.\<close>

function show_nat :: "nat \<Rightarrow> string" where
  "show_nat n =
     (if n < 10 then [char_of (of_char (CHR ''0'') + n)]
      else show_nat (n div 10) @ [char_of (of_char (CHR ''0'') + n mod 10)])"
  by pat_completeness auto
termination
  by (relation "measure id") auto

text \<open>The characters the regular expression \<open>[^a-zA-Z0-9.-]\<close> leaves alone.\<close>

definition is_safe_char :: "char \<Rightarrow> bool" where
  "is_safe_char c =
     (in_range (CHR ''a'') (CHR ''z'') c \<or> in_range (CHR ''A'') (CHR ''Z'') c
      \<or> in_range (CHR ''0'') (CHR ''9'') c \<or> c = CHR ''.'' \<or> c = CHR ''-'')"

definition sanitize :: "string \<Rightarrow> string" where
  "sanitize originalName = map (\<lambda>c. if is_safe_char c then c else CHR ''_'') originalName"

text \<open>The clock and the random UUID are arguments.\<close>

definition generateObjectName :: "nat \<Rightarrow> string \<Rightarrow> string \<Rightarrow> string" where
  "generateObjectName timestamp uuid originalName =
     show_nat timestamp @ ''-'' @ uuid @ ''-'' @ sanitize originalName"

subsection \<open>Retrieval\<close>

definition getFileById :: "files_config \<Rightarrow> store \<Rightarrow> string \<Rightarrow> error + UploadResponse option" where
  "getFileById cfg st ident =
     (case listObjectsV2 st of
        Inl e \<Rightarrow> Inl InternalServerError
      | Inr stream \<Rightarrow>
          (case find (\<lambda>ob. str_includes (o_name ob) ident) stream of
             None \<Rightarrow> Inr None
           | Some ob \<Rightarrow>
               (case statObject st (o_name ob) of
                  Inl e \<Rightarrow> Inl InternalServerError
                | Inr stat \<Rightarrow>
                    Inr (Some \<lparr>f_bucket = bucketName cfg, f_objectName = o_name ob,
                               f_etag = o_etag ob, f_versionId = o_versionId ob,
                               f_size = o_size ob, f_mimetype = mimetype_of stat,
                               f_url = getFilePublicUrl cfg (o_name ob)\<rparr>))))"

text \<open>\<open>fileExists\<close> rethrows whatever is not the client's \<open>NotFound\<close>.\<close>

definition fileExists :: "store \<Rightarrow> string \<Rightarrow> error + bool" where
  "fileExists st objectName =
     (case statObject st objectName of
        Inr stat \<Rightarrow> Inr True
      | Inl MinioNotFound \<Rightarrow> Inr False
      | Inl MinioFailure \<Rightarrow> Inl ClientError)"

definition getFileMetadata :: "store \<Rightarrow> string \<Rightarrow> error + stored_object" where
  "getFileMetadata st objectName =
     (case statObject st objectName of
        Inr stat \<Rightarrow> Inr stat
      | Inl MinioNotFound \<Rightarrow> Inl NotFound
      | Inl MinioFailure \<Rightarrow> Inl InternalServerError)"

definition getFile :: "files_config \<Rightarrow> store \<Rightarrow> string \<Rightarrow> error + UploadResponse" where
  "getFile cfg st identifier =
     (case fileExists st identifier of
        Inl e \<Rightarrow> Inl e
      | Inr existsByFilename \<Rightarrow>
          if existsByFilename then
            (case getFileMetadata st identifier of
               Inl e \<Rightarrow> Inl e
             | Inr metadata \<Rightarrow>
                 Inr \<lparr>f_bucket = bucketName cfg, f_objectName = identifier,
                      f_etag = o_etag metadata, f_versionId = o_versionId metadata,
                      f_size = o_size metadata, f_mimetype = mimetype_of metadata,
                      f_url = getFilePublicUrl cfg identifier\<rparr>)
          else
            (case getFileById cfg st identifier of
               Inl e \<Rightarrow> Inl e
             | Inr None \<Rightarrow> Inl NotFound
             | Inr (Some file) \<Rightarrow> Inr file))"


section \<open>Invariants of the stores\<close>

text \<open>
  What the database guarantees of the user table: the primary key and the unique index
  on the email.
\<close>

definition wf_table :: "user_table \<Rightarrow> bool" where
  "wf_table tbl = (distinct (map u_id tbl) \<and> distinct (map u_email tbl))"

text \<open>
  What the database guarantees of the role tables: the primary key, the unique name, the
  foreign key of a grant, and the unique index on role, resource and action.
\<close>

definition wf_role_db :: "role_db \<Rightarrow> bool" where
  "wf_role_db db =
     (distinct (map role_id (roles db)) \<and> distinct (map role_name (roles db))
      \<and> (\<forall>g\<in>set (role_permissions db). rp_roleId g \<in> set (map role_id (roles db)))
      \<and> distinct (role_permissions db))"

text \<open>In a bucket an object name is a key.\<close>

definition wf_store :: "store \<Rightarrow> bool" where
  "wf_store st = distinct (map o_name (objects st))"


text \<open>An entity has no property named \<open>password\<close>.\<close>

definition no_password :: "js_object \<Rightarrow> bool" where
  "no_password obj = (''password'' \<notin> set (map fst obj))"

section \<open>Example data\<close>

text \<open>A table with two live users and a soft-deleted one, and a plain list request.\<close>

definition alice :: user where
  "alice = \<lparr>u_id = ''u1'', u_email = ''alice@example.com'', u_name = Some ''Alice'',
            u_password = ''hash-a'', u_status = ACTIVE, u_deletedAt = None,
            u_createdAt = 1, u_updatedAt = 1\<rparr>"

definition bob :: user where
  "bob = \<lparr>u_id = ''u2'', u_email = ''bob@example.com'', u_name = None,
          u_password = ''hash-b'', u_status = SUSPENDED, u_deletedAt = Some 3,
          u_createdAt = 2, u_updatedAt = 3\<rparr>"

definition carol :: user where
  "carol = \<lparr>u_id = ''u3'', u_email = ''carol@example.com'', u_name = Some ''Carol'',
            u_password = ''hash-c'', u_status = PENDING, u_deletedAt = None,
            u_createdAt = 4, u_updatedAt = 4\<rparr>"

text \<open>A stand-in for bcrypt in examples.\<close>

definition toy_hash :: "string \<Rightarrow> string" where
  "toy_hash p = ''hash-'' @ p"


definition example_users :: user_table where
  "example_users = [alice, bob, carol]"

definition first_page :: PaginationWithSearchDto where
  "first_page = \<lparr>dto_page = Some (Num 1), dto_limit = Some (Num 10), dto_sortBy = None,
                 dto_sortOrder = None, dto_q = None\<rparr>"

text \<open>A role database with one role and one grant, and the request of the specification.\<close>

definition example_roles :: role_db where
  "example_roles =
     \<lparr>roles = [\<lparr>role_id = ''r1'', role_name = ''admin''\<rparr>],
      role_permissions = [\<lparr>rp_roleId = ''r1'', rp_resource = USER, rp_action = DELETE\<rparr>]\<rparr>"

definition editor_dto :: CreateRoleDto where
  "editor_dto =
     \<lparr>cr_name = ''editor'',
      cr_permissions = Some [\<lparr>p_resource = USER, p_action = [READ, UPDATE]\<rparr>]\<rparr>"

text \<open>The role tables after the editor role is created with the key \<open>r2\<close>.\<close>

definition example_roles_editor :: role_db where
  "example_roles_editor =
     \<lparr>roles = [\<lparr>role_id = ''r1'', role_name = ''admin''\<rparr>,
               \<lparr>role_id = ''r2'', role_name = ''editor''\<rparr>],
      role_permissions =
        [\<lparr>rp_roleId = ''r1'', rp_resource = USER, rp_action = DELETE\<rparr>,
         \<lparr>rp_roleId = ''r2'', rp_resource = USER, rp_action = READ\<rparr>,
         \<lparr>rp_roleId = ''r2'', rp_resource = USER, rp_action = UPDATE\<rparr>]\<rparr>"

text \<open>A bucket with three objects, the second one without a content type.\<close>

definition example_config :: files_config where
  "example_config =
     \<lparr>bucketName = ''files'', minioEndpoint = ''localhost'', minioPort = ''9000'',
      minioUseSSL = False\<rparr>"

definition report_a :: stored_object where
  "report_a = \<lparr>o_name = ''17-aa-report.pdf'', o_etag = ''e1'', o_versionId = None,
                o_size = 100, o_contentType = Some ''application/pdf''\<rparr>"

definition report_b :: stored_object where
  "report_b = \<lparr>o_name = ''18-bb-report.pdf'', o_etag = ''e2'', o_versionId = Some ''v7'',
                o_size = 200, o_contentType = None\<rparr>"

definition photo_c :: stored_object where
  "photo_c = \<lparr>o_name = ''19-cc-photo.png'', o_etag = ''e3'', o_versionId = None,
               o_size = 300, o_contentType = Some ''image/png''\<rparr>"

definition example_store :: store where
  "example_store = \<lparr>reachable = True, objects = [report_a, report_b, photo_c]\<rparr>"

section \<open>Properties of the pagination code\<close>

lemma parseInt10_cases: "parseInt10 s = NaN \<or> (\<exists>n. parseInt10 s = Num n)"
  by (simp add: parseInt10_def Let_def)

lemma skip_nonneg: "1 \<le> (n::int) \<Longrightarrow> 1 \<le> m \<Longrightarrow> \<not> (n - 1) * m < 0"
  by (simp add: not_less)

text \<open>
  When both query values parse to a number, both variants of the decorator return a
  valid descriptor, whatever the numbers are.
\<close>

lemma Pagination_numeric_valid:
  assumes "parseInt10 (or_default (q_page q) ''1'') = Num p"
    and "parseInt10 (or_default (q_limit q) ''10'') = Num l"
  shows "valid_params (Pagination q)" and "valid_params (Pagination2 q)"
  using assms
  by (auto simp: Pagination_def Pagination2_def valid_params_def Let_def js_gt_def js_le_def
      skip_nonneg)

text \<open>
  Claim C1 asks that for every page and limit of the query, non-numeric values included,
  the descriptor has \<open>page \<ge> 1\<close>, \<open>1 \<le> limit \<le> 100\<close> and
  \<open>skip = (page - 1) * limit \<ge> 0\<close>. For the query \<open>page=abc\<close> both variants return
  \<open>NaN\<close> as page and as skip: \<open>parseInt\<close> gives \<open>NaN\<close>, and neither the comparison
  \<open>page < 1\<close> nor \<open>Math.max(1, page)\<close> replaces it. The query \<open>limit=abc\<close> does
  the same to limit and skip.
\<close>

theorem Pagination_non_numeric_page:
  "Pagination \<lparr>q_page = Some ''abc'', q_limit = None\<rparr>
     = \<lparr>page = NaN, limit = Num 10, skip = NaN\<rparr>
   \<and> Pagination2 \<lparr>q_page = Some ''abc'', q_limit = None\<rparr>
     = \<lparr>page = NaN, limit = Num 10, skip = NaN\<rparr>
   \<and> \<not> valid_params (Pagination \<lparr>q_page = Some ''abc'', q_limit = None\<rparr>)
   \<and> \<not> valid_params (Pagination2 \<lparr>q_page = Some ''abc'', q_limit = None\<rparr>)
   \<and> Pagination \<lparr>q_page = None, q_limit = Some ''abc''\<rparr>
     = \<lparr>page = Num 1, limit = NaN, skip = NaN\<rparr>
   \<and> Pagination2 \<lparr>q_page = None, q_limit = Some ''abc''\<rparr>
     = \<lparr>page = Num 1, limit = NaN, skip = NaN\<rparr>"
  by (simp add: Pagination_def Pagination2_def valid_params_def parseInt10_def or_default_def
      is_space_def is_digit_def in_range_def digits_val_def digit_val_def Let_def js_gt_def)

text \<open>
  Claim C6: the metadata builder returns \<open>totalPages = ceil(total / limit)\<close>,
  \<open>hasNextPage\<close> exactly when \<open>page < totalPages\<close> and \<open>hasPreviousPage\<close> exactly when
  \<open>page > 1\<close>. The two flags are stated for all numbers; the ceiling is the ceiling of
  the real quotient whenever the limit is a non-zero integer. For total 25, limit 10 and
  page 3 the result is 3 pages, no next page, a previous page.
\<close>

theorem buildMeta_spec:
  "hasNextPage (buildMeta p l t) = js_lt p (totalPages (buildMeta p l t))
   \<and> hasPreviousPage (buildMeta p l t) = js_gt p (Num 1)
   \<and> (\<forall>page' limit' total'. limit' \<noteq> 0 \<longrightarrow>
        buildMeta (Num page') (Num limit') (Num total') =
          \<lparr>meta_page = Num page', meta_limit = Num limit', meta_total = Num total',
           totalPages = Num \<lceil>real_of_int total' / real_of_int limit'\<rceil>,
           hasNextPage = (page' < \<lceil>real_of_int total' / real_of_int limit'\<rceil>),
           hasPreviousPage = (page' > 1)\<rparr>)
   \<and> buildMeta (Num 3) (Num 10) (Num 25) =
          \<lparr>meta_page = Num 3, meta_limit = Num 10, meta_total = Num 25,
           totalPages = Num 3, hasNextPage = False, hasPreviousPage = True\<rparr>"
  by (simp add: buildMeta_def Let_def js_gt_def ceiling_divide_eq_div)

text \<open>C6 at page 2 of 25 rows, 10 a page: three pages, with a next and a previous one.\<close>

theorem buildMeta_spec_witness:
  "(10::int) \<noteq> 0 \<and> buildMeta (Num 2) (Num 10) (Num 25) =
          \<lparr>meta_page = Num 2, meta_limit = Num 10, meta_total = Num 25,
           totalPages = Num 3, hasNextPage = True, hasPreviousPage = True\<rparr>"
proof -
  have "\<lceil>real_of_int 25 / real_of_int 10\<rceil> = 3" by simp
  with buildMeta_spec [of "Num 2" "Num 10" "Num 25"] show ?thesis
    by simp
qed

text \<open>
  Claim C10: whenever the interceptor builds the metadata (the handler returned an object
  with \<open>data\<close> and \<open>total\<close>, or an array), \<open>meta.limit\<close> is the limit parsed from the
  raw query with default 10 and no clamping, and the page it falls back on is the page
  parsed from the raw query with default 1; any other response passes through as it is.
  For \<open>limit=9999\<close> the metadata says 9999 while both variants of the decorator fetch
  with 100.
\<close>

theorem intercept_meta_unclamped:
  "(case intercept q (WithDataTotal r) of
      Wrapped res \<Rightarrow>
        meta_limit (meta res) = parseInt10 (or_default (q_limit q) ''10'')
        \<and> meta_page (meta res) = num_or (r_page r) (parseInt10 (or_default (q_page q) ''1''))
    | AsIs x \<Rightarrow> False)
   \<and> (case intercept q (ArrayResult xs) of
      Wrapped res \<Rightarrow>
        meta_limit (meta res) = parseInt10 (or_default (q_limit q) ''10'')
        \<and> meta_page (meta res) = parseInt10 (or_default (q_page q) ''1'')
    | AsIs x \<Rightarrow> False)
   \<and> intercept q (OtherResult x) = AsIs x
   \<and> (case intercept \<lparr>q_page = None, q_limit = Some ''9999''\<rparr> (ArrayResult ys) of
      Wrapped res \<Rightarrow> meta_limit (meta res) = Num 9999 \<and> meta_page (meta res) = Num 1
    | AsIs x \<Rightarrow> False)
   \<and> limit (Pagination \<lparr>q_page = None, q_limit = Some ''9999''\<rparr>) = Num 100
   \<and> limit (Pagination2 \<lparr>q_page = None, q_limit = Some ''9999''\<rparr>) = Num 100"
  by (simp add: intercept_def Let_def Pagination_def Pagination2_def parseInt10_def
      or_default_def is_space_def is_digit_def in_range_def digits_val_def digit_val_def js_gt_def)

section \<open>Properties of the user service\<close>

subsection \<open>Lookups on a table that respects its keys\<close>

lemma find_key_unique:
  "distinct (map f xs) \<Longrightarrow> x \<in> set xs \<Longrightarrow>
     find (\<lambda>y. f y = f x \<and> Q y) xs = (if Q x then Some x else None)"
proof (induction xs)
  case Nil
  then show ?case by simp
next
  case (Cons a xs)
  show ?case
  proof (cases "a = x")
    case True
    with Cons.prems have "f x \<notin> f ` set xs" by simp
    then have "\<forall>y\<in>set xs. f y \<noteq> f x" by (metis imageI)
    then have "find (\<lambda>y. f y = f x \<and> Q y) xs = None" by (auto simp: find_None_iff)
    with True show ?thesis by simp
  next
    case False
    with Cons.prems have "x \<in> set xs" and "f a \<noteq> f x" and "distinct (map f xs)"
      by (auto simp: image_iff)
    with Cons.IH show ?thesis by simp
  qed
qed

lemma findUnique_id_wf:
  "wf_table tbl \<Longrightarrow> u \<in> set tbl \<Longrightarrow> findUnique_id tbl (u_id u) = Some u"
  using find_key_unique [of u_id tbl u "\<lambda>_. True"]
  by (simp add: wf_table_def findUnique_id_def)

lemma findUnique_email_wf:
  "wf_table tbl \<Longrightarrow> u \<in> set tbl \<Longrightarrow> findUnique_email tbl (u_email u) = Some u"
  using find_key_unique [of u_email tbl u "\<lambda>_. True"]
  by (simp add: wf_table_def findUnique_email_def)

lemma findFirst_id_live_wf:
  "wf_table tbl \<Longrightarrow> u \<in> set tbl \<Longrightarrow>
     findFirst_id_live tbl (u_id u) = (if u_deletedAt u = None then Some u else None)"
  using find_key_unique [of u_id tbl u "\<lambda>y. u_deletedAt y = None"]
  by (simp add: wf_table_def findFirst_id_live_def)

lemma no_other_email:
  "wf_table tbl \<Longrightarrow> u \<in> set tbl \<Longrightarrow> r \<in> set tbl \<Longrightarrow> u_email r = u_email u \<Longrightarrow> r = u"
  by (auto simp: wf_table_def distinct_map inj_on_def)

lemma no_other_id:
  "wf_table tbl \<Longrightarrow> u \<in> set tbl \<Longrightarrow> r \<in> set tbl \<Longrightarrow> u_id r = u_id u \<Longrightarrow> r = u"
  by (auto simp: wf_table_def distinct_map inj_on_def)

lemma prisma_update_keeps_email:
  assumes "wf_table tbl" and "u \<in> set tbl" and "u_email (change u) = u_email u"
  shows "prisma_update tbl (u_id u) change now =
           Some ((change u)\<lparr>u_updatedAt := now\<rparr>,
                 map (\<lambda>r. if u_id r = u_id u then (change r)\<lparr>u_updatedAt := now\<rparr> else r) tbl)"
proof -
  have "\<not> list_ex (\<lambda>r. u_id r \<noteq> u_id u \<and> u_email r = u_email u) tbl"
    using assms(1,2) no_other_email by (auto simp: list_ex_iff)
  with assms show ?thesis
    by (simp add: prisma_update_def findUnique_id_wf Let_def)
qed

lemma take_drop_subset: "set (take n (drop m zs)) \<subseteq> set zs"
  by (meson set_take_subset set_drop_subset subset_trans)

lemma window_subset:
  assumes "window s t xs = Some ys"
  shows "set ys \<subseteq> set xs"
proof -
  from assms obtain a b where ab: "s = Num a" "t = Num b" "\<not> a < 0"
    by (auto simp: window_def split: jsnum.splits if_splits)
  show ?thesis
  proof (cases "0 \<le> b")
    case True
    with assms ab have "ys = take (nat b) (drop (nat a) xs)" by (simp add: window_def)
    then show ?thesis by (simp add: take_drop_subset)
  next
    case False
    with assms ab have "ys = rev (take (nat (- b)) (drop (nat a) (rev xs)))"
      by (simp add: window_def)
    then have "set ys = set (take (nat (- b)) (drop (nat a) (rev xs)))" by simp
    also have "\<dots> \<subseteq> set (rev xs)" by (rule take_drop_subset)
    finally show ?thesis by simp
  qed
qed

lemma findMany_subset:
  assumes "rearranges db_sort" and "findMany db_sort tbl w s t ob = Some ys"
  shows "set ys \<subseteq> {r \<in> set tbl. w r}"
proof -
  from assms(2) obtain rows where r: "db_sort ob (filter w tbl) = Some rows"
    and win: "window s t rows = Some ys"
    by (auto simp: findMany_def split: option.splits)
  from assms(1) r have "mset rows = mset (filter w tbl)" unfolding rearranges_def by blast
  then have "set rows = set (filter w tbl)" by (rule mset_eq_setD)
  with window_subset [OF win] show ?thesis by auto
qed

lemma findAll_rows_live:
  assumes "rearranges db_sort" and "UserService_findAll db_sort tbl dto = Inr res"
    and "e \<in> set (data res)"
  shows "\<exists>r\<in>set tbl. u_deletedAt r = None \<and> e = excludePassword (user_object r)"
  using assms findMany_subset [OF assms(1)]
  by (fastforce simp: UserService_findAll_def Let_def split: option.splits)

lemma entity_id: "map_of (excludePassword (user_object r)) ''id'' = Some (VStr (u_id r))"
  by (simp add: excludePassword_def user_object_def)

lemma entity_email: "map_of (excludePassword (user_object r)) ''email'' = Some (VStr (u_email r))"
  by (simp add: excludePassword_def user_object_def)

lemma wf_table_map:
  assumes "wf_table tbl" and "\<And>r. u_id (g r) = u_id r" and "\<And>r. u_email (g r) = u_email r"
  shows "wf_table (map g tbl)"
proof -
  have "map u_id (map g tbl) = map u_id tbl" and "map u_email (map g tbl) = map u_email tbl"
    using assms(2,3) by simp_all
  with assms(1) show ?thesis by (simp only: wf_table_def)
qed

lemma remove_live:
  assumes wf: "wf_table tbl" and u: "u \<in> set tbl" "u_id u = i" "u_deletedAt u = None"
  shows "UserService_remove now tbl i =
           Inr (map (\<lambda>r. if u_id r = i then r\<lparr>u_deletedAt := Some now, u_updatedAt := now\<rparr> else r) tbl)"
proof -
  have "UserService_findOne tbl i = Inr (excludePassword (user_object u))"
    using findFirst_id_live_wf [OF wf u(1)] u by (simp add: UserService_findOne_def)
  moreover have "prisma_update tbl i (\<lambda>u. u\<lparr>u_deletedAt := Some now\<rparr>) now =
      Some (u\<lparr>u_deletedAt := Some now, u_updatedAt := now\<rparr>,
            map (\<lambda>r. if u_id r = i then r\<lparr>u_deletedAt := Some now, u_updatedAt := now\<rparr> else r) tbl)"
    using prisma_update_keeps_email [OF wf u(1), of "\<lambda>u. u\<lparr>u_deletedAt := Some now\<rparr>" now] u(2)
    by simp
  ultimately show ?thesis by (simp add: UserService_remove_def)
qed

lemma findOne_NotFound:
  "(\<forall>u\<in>set tbl. u_id u = i \<longrightarrow> u_deletedAt u \<noteq> None) \<Longrightarrow> UserService_findOne tbl i = Inl NotFound"
  by (auto simp: UserService_findOne_def findFirst_id_live_def find_None_iff split: option.splits)

lemma remove_not_live:
  "(\<forall>u\<in>set tbl. u_id u = i \<longrightarrow> u_deletedAt u \<noteq> None) \<Longrightarrow> UserService_remove now tbl i = Inl NotFound"
  by (simp add: UserService_remove_def findOne_NotFound)

lemma findAll_excludes_deleted:
  assumes "rearranges db_sort" and "UserService_findAll db_sort tbl dto = Inr res"
    and "\<forall>r\<in>set tbl. u_id r = i \<longrightarrow> u_deletedAt r \<noteq> None"
    and "e \<in> set (data res)"
  shows "map_of e ''id'' \<noteq> Some (VStr i)"
proof -
  from findAll_rows_live [OF assms(1,2,4)] obtain r where
    r: "r \<in> set tbl" "u_deletedAt r = None" "e = excludePassword (user_object r)" by blast
  with assms(3) have "u_id r \<noteq> i" by auto
  with r(3) show ?thesis by (simp add: entity_id)
qed


lemma mark_deleted_all:
  assumes "r \<in> set (map (\<lambda>r. if u_id r = i then r\<lparr>u_deletedAt := d, u_updatedAt := now\<rparr> else r) tbl)"
    and "u_id r = i"
  shows "u_deletedAt r = d"
proof -
  from assms(1) obtain x where x: "x \<in> set tbl"
    and r: "r = (if u_id x = i then x\<lparr>u_deletedAt := d, u_updatedAt := now\<rparr> else x)"
    by (simp only: set_map) blast
  show ?thesis
  proof (cases "u_id x = i")
    case True
    with r show ?thesis by simp
  next
    case False
    with r assms(2) show ?thesis by simp
  qed
qed



lemma rearranges_insertion_order: "rearranges insertion_order"
  by (simp add: rearranges_def insertion_order_def)

lemma wf_example_users: "wf_table example_users"
  by (simp add: wf_table_def example_users_def alice_def bob_def carol_def)


subsection \<open>Soft delete\<close>

text \<open>
  Claim C2: on a table that respects its keys, soft-deleting a user that exists and is
  live succeeds; the new table is the old one with the delete timestamp (and the update
  time) of that user's row set to the current time and every other row as it was, so
  the row is kept, with its timestamp set. Afterwards \<open>findOne\<close> fails with NotFound
  and no list returned by \<open>findAll\<close>, for any request and any ordering of the
  database, contains an entity of that id. Removing an id that has no live row (already
  soft-deleted, or absent) fails with NotFound.
\<close>

theorem remove_soft_deletes:
  assumes "wf_table tbl"
  shows
   "(\<forall>u\<in>set tbl. u_id u = i \<and> u_deletedAt u = None \<longrightarrow>
       (\<exists>tbl'. UserService_remove now tbl i = Inr tbl'
          \<and> tbl' = map (\<lambda>r. if u_id r = i
                                then r\<lparr>u_deletedAt := Some now, u_updatedAt := now\<rparr>
                                else r) tbl
          \<and> u\<lparr>u_deletedAt := Some now, u_updatedAt := now\<rparr> \<in> set tbl'
          \<and> (\<forall>r\<in>set tbl'. u_id r = i \<longrightarrow> u_deletedAt r = Some now)
          \<and> UserService_findOne tbl' i = Inl NotFound
          \<and> (\<forall>db_sort dto res. rearranges db_sort \<and> UserService_findAll db_sort tbl' dto = Inr res
                \<longrightarrow> (\<forall>e\<in>set (data res). map_of e ''id'' \<noteq> Some (VStr i)))))
    \<and> ((\<forall>u\<in>set tbl. u_id u = i \<longrightarrow> u_deletedAt u \<noteq> None)
          \<longrightarrow> UserService_remove now tbl i = Inl NotFound)"
proof (intro conjI ballI impI)
  fix u
  assume u: "u \<in> set tbl" "u_id u = i \<and> u_deletedAt u = None"
  define tbl' where
    "tbl' = map (\<lambda>r. if u_id r = i then r\<lparr>u_deletedAt := Some now, u_updatedAt := now\<rparr> else r) tbl"
  have rm: "UserService_remove now tbl i = Inr tbl'"
    unfolding tbl'_def using u(2) by (intro remove_live [OF assms u(1)]) simp_all
  have del: "\<forall>r\<in>set tbl'. u_id r = i \<longrightarrow> u_deletedAt r = Some now"
    unfolding tbl'_def by (intro ballI impI) (rule mark_deleted_all)
  have del': "\<forall>r\<in>set tbl'. u_id r = i \<longrightarrow> u_deletedAt r \<noteq> None"
  proof (intro ballI impI)
    fix r assume "r \<in> set tbl'" "u_id r = i"
    with del have "u_deletedAt r = Some now" by blast
    then show "u_deletedAt r \<noteq> None" by simp
  qed
  have one: "UserService_findOne tbl' i = Inl NotFound"
    by (rule findOne_NotFound [OF del'])
  have all: "\<forall>db_sort dto res. rearranges db_sort \<and> UserService_findAll db_sort tbl' dto = Inr res
                \<longrightarrow> (\<forall>e\<in>set (data res). map_of e ''id'' \<noteq> Some (VStr i))"
  proof (intro allI impI ballI)
    fix db_sort dto res e
    assume a: "rearranges db_sort \<and> UserService_findAll db_sort tbl' dto = Inr res"
      and e: "e \<in> set (data res)"
    from a have a1: "rearranges db_sort" and a2: "UserService_findAll db_sort tbl' dto = Inr res"
      by simp_all
    show "map_of e ''id'' \<noteq> Some (VStr i)"
      by (rule findAll_excludes_deleted [OF a1 a2 del' e])
  qed
  have shape: "tbl' = map (\<lambda>r. if u_id r = i
                                then r\<lparr>u_deletedAt := Some now, u_updatedAt := now\<rparr>
                                else r) tbl"
    by (rule tbl'_def)
  have "(if u_id u = i then u\<lparr>u_deletedAt := Some now, u_updatedAt := now\<rparr> else u) \<in> set tbl'"
    unfolding tbl'_def using u(1) by (simp only: set_map) (rule imageI)
  with u(2) have kept: "u\<lparr>u_deletedAt := Some now, u_updatedAt := now\<rparr> \<in> set tbl'"
    by simp
  show "\<exists>tbl'. UserService_remove now tbl i = Inr tbl'
          \<and> tbl' = map (\<lambda>r. if u_id r = i
                                then r\<lparr>u_deletedAt := Some now, u_updatedAt := now\<rparr>
                                else r) tbl
          \<and> u\<lparr>u_deletedAt := Some now, u_updatedAt := now\<rparr> \<in> set tbl'
          \<and> (\<forall>r\<in>set tbl'. u_id r = i \<longrightarrow> u_deletedAt r = Some now)
          \<and> UserService_findOne tbl' i = Inl NotFound
          \<and> (\<forall>db_sort dto res. rearranges db_sort \<and> UserService_findAll db_sort tbl' dto = Inr res
                \<longrightarrow> (\<forall>e\<in>set (data res). map_of e ''id'' \<noteq> Some (VStr i)))"
    by (rule exI [of _ tbl']) (intro conjI rm shape kept del one all)
next
  assume "\<forall>u\<in>set tbl. u_id u = i \<longrightarrow> u_deletedAt u \<noteq> None"
  then show "UserService_remove now tbl i = Inl NotFound" by (rule remove_not_live)
qed

text \<open>
  C2 on the example table: alice is soft-deleted at time 9, her row stays in the table
  with that timestamp, and she disappears from \<open>findOne\<close> and \<open>findAll\<close>; removing bob, already soft-deleted, and an unknown id
  both fail with NotFound.
\<close>

theorem remove_soft_deletes_witness:
  "wf_table example_users
   \<and> UserService_remove 9 example_users ''u1''
       = Inr [alice\<lparr>u_deletedAt := Some 9, u_updatedAt := 9\<rparr>, bob, carol]
   \<and> alice\<lparr>u_deletedAt := Some 9, u_updatedAt := 9\<rparr>
       \<in> set [alice\<lparr>u_deletedAt := Some 9, u_updatedAt := 9\<rparr>, bob, carol]
   \<and> u_deletedAt (alice\<lparr>u_deletedAt := Some 9, u_updatedAt := 9\<rparr>) = Some 9
   \<and> UserService_findOne [alice\<lparr>u_deletedAt := Some 9, u_updatedAt := 9\<rparr>, bob, carol] ''u1''
       = Inl NotFound
   \<and> UserService_findAll insertion_order
         [alice\<lparr>u_deletedAt := Some 9, u_updatedAt := 9\<rparr>, bob, carol] first_page
       = Inr \<lparr>data = [excludePassword (user_object carol)],
              meta = buildMeta (Num 1) (Num 10) (Num 1)\<rparr>
   \<and> map_of (excludePassword (user_object carol)) ''id'' \<noteq> Some (VStr ''u1'')
   \<and> UserService_remove 9 example_users ''u2'' = Inl NotFound
   \<and> UserService_remove 9 example_users ''nobody'' = Inl NotFound"
proof -
  let ?X = "[alice\<lparr>u_deletedAt := Some 9, u_updatedAt := 9\<rparr>, bob, carol]"
  let ?R = "\<lparr>data = [excludePassword (user_object carol)],
             meta = buildMeta (Num 1) (Num 10) (Num 1)\<rparr>"
  have wf: "wf_table example_users" by (rule wf_example_users)
  have rm: "UserService_remove 9 example_users ''u1'' = Inr ?X"
    by (simp add: UserService_remove_def UserService_findOne_def findFirst_id_live_def
        prisma_update_def findUnique_id_def example_users_def alice_def bob_def carol_def)
  have fa: "UserService_findAll insertion_order ?X first_page = Inr ?R"
    by (simp add: UserService_findAll_def getPaginationOptions_def num_or_def
        buildSearchWhere_def buildOrderBy_def findMany_def insertion_order_def window_def
        count_where_def matches_search_def first_page_def alice_def bob_def carol_def)
  have live: "alice \<in> set example_users" "u_id alice = ''u1'' \<and> u_deletedAt alice = None"
    by (simp_all add: example_users_def alice_def)
  have gone2: "\<forall>u\<in>set example_users. u_id u = ''u2'' \<longrightarrow> u_deletedAt u \<noteq> None"
    by (simp add: example_users_def alice_def bob_def carol_def)
  have gone3: "\<forall>u\<in>set example_users. u_id u = ''nobody'' \<longrightarrow> u_deletedAt u \<noteq> None"
    by (simp add: example_users_def alice_def bob_def carol_def)
  from remove_soft_deletes [OF wf, where i = "''u1''" and now = 9,
      THEN conjunct1, rule_format, OF live]
  obtain tbl' where t: "UserService_remove 9 example_users ''u1'' = Inr tbl'"
    "UserService_findOne tbl' ''u1'' = Inl NotFound"
    "\<forall>db_sort dto res. rearranges db_sort \<and> UserService_findAll db_sort tbl' dto = Inr res
        \<longrightarrow> (\<forall>e\<in>set (data res). map_of e ''id'' \<noteq> Some (VStr ''u1''))"
    and k: "alice\<lparr>u_deletedAt := Some 9, u_updatedAt := 9\<rparr> \<in> set tbl'"
    by (elim exE conjE)
  from t(1) rm have eq: "tbl' = ?X" by simp
  from k eq have kept: "alice\<lparr>u_deletedAt := Some 9, u_updatedAt := 9\<rparr> \<in> set ?X"
    by (simp only:)
  have stamped: "u_deletedAt (alice\<lparr>u_deletedAt := Some 9, u_updatedAt := 9\<rparr>) = Some 9"
    by simp
  from t(2) eq have one: "UserService_findOne ?X ''u1'' = Inl NotFound" by simp
  from t(3) eq rearranges_insertion_order fa
  have "\<forall>e\<in>set (data ?R). map_of e ''id'' \<noteq> Some (VStr ''u1'')" by blast
  then have car: "map_of (excludePassword (user_object carol)) ''id'' \<noteq> Some (VStr ''u1'')"
    by simp
  from remove_soft_deletes [OF wf, where i = "''u2''" and now = 9,
      THEN conjunct2, THEN mp, OF gone2]
  have r2: "UserService_remove 9 example_users ''u2'' = Inl NotFound" .
  from remove_soft_deletes [OF wf, where i = "''nobody''" and now = 9,
      THEN conjunct2, THEN mp, OF gone3]
  have r3: "UserService_remove 9 example_users ''nobody'' = Inl NotFound" .
  from wf rm kept stamped one fa car r2 r3 show ?thesis by (intro conjI)
qed

subsection \<open>Restore\<close>

lemma restore_absent:
  "(\<forall>u\<in>set tbl. u_id u \<noteq> i) \<Longrightarrow> UserService_restore now tbl i = Inl NotFound"
  by (simp add: UserService_restore_def findUnique_id_def find_None_iff [THEN iffD2])

lemma restore_live:
  assumes "wf_table tbl" and "u \<in> set tbl" and "u_id u = i" and "u_deletedAt u = None"
  shows "UserService_restore now tbl i = Inl Conflict"
  using findUnique_id_wf [OF assms(1,2)] assms(3,4) by (simp add: UserService_restore_def)

lemma restore_deleted:
  assumes wf: "wf_table tbl" and u: "u \<in> set tbl" "u_id u = i" "u_deletedAt u \<noteq> None"
  shows "UserService_restore now tbl i =
           Inr (excludePassword (user_object (u\<lparr>u_deletedAt := None, u_updatedAt := now\<rparr>)),
                map (\<lambda>r. if u_id r = i then r\<lparr>u_deletedAt := None, u_updatedAt := now\<rparr> else r) tbl)"
proof -
  have "prisma_update tbl i (\<lambda>u. u\<lparr>u_deletedAt := None\<rparr>) now =
      Some (u\<lparr>u_deletedAt := None, u_updatedAt := now\<rparr>,
            map (\<lambda>r. if u_id r = i then r\<lparr>u_deletedAt := None, u_updatedAt := now\<rparr> else r) tbl)"
    using prisma_update_keeps_email [OF wf u(1), of "\<lambda>u. u\<lparr>u_deletedAt := None\<rparr>" now] u(2)
    by simp
  with findUnique_id_wf [OF wf u(1)] u(2,3) show ?thesis
    by (simp add: UserService_restore_def)
qed

lemma findOne_after_restore:
  assumes wf: "wf_table tbl" and u: "u \<in> set tbl" "u_id u = i"
  shows "UserService_findOne
           (map (\<lambda>r. if u_id r = i then r\<lparr>u_deletedAt := None, u_updatedAt := now\<rparr> else r) tbl) i
         = Inr (excludePassword (user_object (u\<lparr>u_deletedAt := None, u_updatedAt := now\<rparr>)))"
proof -
  define g where "g = (\<lambda>r::user. if u_id r = i then r\<lparr>u_deletedAt := None, u_updatedAt := now\<rparr> else r)"
  have wf': "wf_table (map g tbl)"
    by (rule wf_table_map [OF wf]) (simp_all add: g_def)
  have gu: "g u = u\<lparr>u_deletedAt := None, u_updatedAt := now\<rparr>" using u(2) by (simp add: g_def)
  have mem: "g u \<in> set (map g tbl)" using u(1) by simp
  have "findFirst_id_live (map g tbl) (u_id (g u)) = Some (g u)"
    using findFirst_id_live_wf [OF wf' mem] gu by simp
  moreover have "u_id (g u) = i" using u(2) gu by simp
  ultimately have "findFirst_id_live (map g tbl) i = Some (g u)" by simp
  then show ?thesis unfolding g_def [symmetric] by (simp add: UserService_findOne_def gu)
qed

lemma entity_deletedAt:
  "map_of (excludePassword (user_object r)) ''deletedAt''
     = Some (case u_deletedAt r of None \<Rightarrow> VNull | Some t \<Rightarrow> VDate t)"
  by (simp add: excludePassword_def user_object_def)

text \<open>
  Claim C3: restore looks the row up by id, soft-deleted or not. On a table that respects
  its keys it fails with NotFound when no row has the id, fails with Conflict when the
  row of that id is live, and otherwise clears the delete timestamp and returns the
  user; \<open>findOne\<close> then returns the same entity, with the id asked for and the email
  the row had before.
\<close>

theorem restore_spec:
  assumes "wf_table tbl"
  shows
   "((\<forall>u\<in>set tbl. u_id u \<noteq> i) \<longrightarrow> UserService_restore now tbl i = Inl NotFound)
    \<and> (\<forall>u\<in>set tbl. u_id u = i \<and> u_deletedAt u = None \<longrightarrow>
          UserService_restore now tbl i = Inl Conflict)
    \<and> (\<forall>u\<in>set tbl. u_id u = i \<and> u_deletedAt u \<noteq> None \<longrightarrow>
          (\<exists>e tbl'. UserService_restore now tbl i = Inr (e, tbl')
             \<and> (\<forall>r\<in>set tbl'. u_id r = i \<longrightarrow> u_deletedAt r = None)
             \<and> map_of e ''deletedAt'' = Some VNull
             \<and> UserService_findOne tbl' i = Inr e
             \<and> map_of e ''id'' = Some (VStr i)
             \<and> map_of e ''email'' = Some (VStr (u_email u))))"
proof (intro conjI ballI impI)
  assume "\<forall>u\<in>set tbl. u_id u \<noteq> i"
  then show "UserService_restore now tbl i = Inl NotFound" by (rule restore_absent)
next
  fix u assume "u \<in> set tbl" "u_id u = i \<and> u_deletedAt u = None"
  then show "UserService_restore now tbl i = Inl Conflict"
    using restore_live [OF assms] by blast
next
  fix u assume u: "u \<in> set tbl" "u_id u = i \<and> u_deletedAt u \<noteq> None"
  define tbl' where
    "tbl' = map (\<lambda>r. if u_id r = i then r\<lparr>u_deletedAt := None, u_updatedAt := now\<rparr> else r) tbl"
  define e where "e = excludePassword (user_object (u\<lparr>u_deletedAt := None, u_updatedAt := now\<rparr>))"
  have r: "UserService_restore now tbl i = Inr (e, tbl')"
    unfolding e_def tbl'_def using u(2) by (intro restore_deleted [OF assms u(1)]) simp_all
  have live: "\<forall>r\<in>set tbl'. u_id r = i \<longrightarrow> u_deletedAt r = None"
    unfolding tbl'_def by (intro ballI impI) (rule mark_deleted_all)
  have d: "map_of e ''deletedAt'' = Some VNull" by (simp add: e_def entity_deletedAt)
  have f: "UserService_findOne tbl' i = Inr e"
    unfolding e_def tbl'_def using u(2) by (intro findOne_after_restore [OF assms u(1)]) simp
  have i: "map_of e ''id'' = Some (VStr i)" using u(2) by (simp add: e_def entity_id)
  have m: "map_of e ''email'' = Some (VStr (u_email u))" by (simp add: e_def entity_email)
  show "\<exists>e tbl'. UserService_restore now tbl i = Inr (e, tbl')
             \<and> (\<forall>r\<in>set tbl'. u_id r = i \<longrightarrow> u_deletedAt r = None)
             \<and> map_of e ''deletedAt'' = Some VNull
             \<and> UserService_findOne tbl' i = Inr e
             \<and> map_of e ''id'' = Some (VStr i)
             \<and> map_of e ''email'' = Some (VStr (u_email u))"
    by (intro exI [of _ e] exI [of _ tbl'] conjI r live d f i m)
qed

text \<open>
  C3 on the example table: an unknown id is NotFound, live alice is a Conflict, and
  soft-deleted bob is restored and found again with his id and email.
\<close>

theorem restore_spec_witness:
  "wf_table example_users
   \<and> UserService_restore 9 example_users ''nobody'' = Inl NotFound
   \<and> UserService_restore 9 example_users ''u1'' = Inl Conflict
   \<and> UserService_restore 9 example_users ''u2''
       = Inr (excludePassword (user_object (bob\<lparr>u_deletedAt := None, u_updatedAt := 9\<rparr>)),
              [alice, bob\<lparr>u_deletedAt := None, u_updatedAt := 9\<rparr>, carol])
   \<and> UserService_findOne [alice, bob\<lparr>u_deletedAt := None, u_updatedAt := 9\<rparr>, carol] ''u2''
       = Inr (excludePassword (user_object (bob\<lparr>u_deletedAt := None, u_updatedAt := 9\<rparr>)))
   \<and> map_of (excludePassword (user_object (bob\<lparr>u_deletedAt := None, u_updatedAt := 9\<rparr>))) ''id''
       = Some (VStr ''u2'')
   \<and> map_of (excludePassword (user_object (bob\<lparr>u_deletedAt := None, u_updatedAt := 9\<rparr>))) ''email''
       = Some (VStr ''bob@example.com'')"
proof -
  let ?b = "bob\<lparr>u_deletedAt := None, u_updatedAt := 9\<rparr>"
  let ?X = "[alice, ?b, carol]"
  have wf: "wf_table example_users" by (rule wf_example_users)
  note spec = restore_spec [OF wf, of _ 9]
  have absent: "\<forall>u\<in>set example_users. u_id u \<noteq> ''nobody''"
    by (simp add: example_users_def alice_def bob_def carol_def)
  have a: "alice \<in> set example_users" "u_id alice = ''u1'' \<and> u_deletedAt alice = None"
    by (simp_all add: example_users_def alice_def)
  have b: "bob \<in> set example_users" "u_id bob = ''u2'' \<and> u_deletedAt bob \<noteq> None"
    by (simp_all add: example_users_def bob_def)
  have rs: "UserService_restore 9 example_users ''u2'' = Inr (excludePassword (user_object ?b), ?X)"
    by (simp add: UserService_restore_def prisma_update_def findUnique_id_def
        example_users_def alice_def bob_def carol_def)
  from spec [of "''nobody''"] absent
  have r1: "UserService_restore 9 example_users ''nobody'' = Inl NotFound" by blast
  from spec [of "''u1''"] a
  have r2: "UserService_restore 9 example_users ''u1'' = Inl Conflict" by blast
  from spec [of "''u2''"] b
  obtain e tbl' where t: "UserService_restore 9 example_users ''u2'' = Inr (e, tbl')"
    "UserService_findOne tbl' ''u2'' = Inr e" "map_of e ''id'' = Some (VStr ''u2'')"
    "map_of e ''email'' = Some (VStr (u_email bob))"
    by blast
  from t(1) rs have eq: "e = excludePassword (user_object ?b)" "tbl' = ?X" by simp_all
  from t(2) eq have r3: "UserService_findOne ?X ''u2'' = Inr (excludePassword (user_object ?b))"
    by simp
  from t(3) eq have r4: "map_of (excludePassword (user_object ?b)) ''id'' = Some (VStr ''u2'')"
    by simp
  from t(4) eq have r5: "map_of (excludePassword (user_object ?b)) ''email'' = Some (VStr ''bob@example.com'')"
    by (simp add: bob_def)
  from wf r1 r2 rs r3 r4 r5 show ?thesis by (intro conjI)
qed

subsection \<open>Email uniqueness\<close>

lemma create_conflict:
  assumes "r \<in> set tbl" and "u_email r = c_email createUserDto"
  shows "UserService_create hash newId now tbl createUserDto = Inl Conflict"
proof -
  from assms have "findUnique_email tbl (c_email createUserDto) \<noteq> None"
    by (auto simp: findUnique_email_def find_None_iff)
  then show ?thesis by (auto simp: UserService_create_def)
qed

lemma findOne_live:
  assumes "wf_table tbl" and "t \<in> set tbl" and "u_id t = i" and "u_deletedAt t = None"
  shows "UserService_findOne tbl i = Inr (excludePassword (user_object t))"
  using findFirst_id_live_wf [OF assms(1,2)] assms(3,4) by (simp add: UserService_findOne_def)

lemma update_conflict:
  assumes wf: "wf_table tbl" and t: "t \<in> set tbl" "u_id t = i" "u_deletedAt t = None"
    and r: "r \<in> set tbl" "u_id r \<noteq> i"
    and e: "upd_email updateUserDto = Some (u_email r)" "u_email r \<noteq> []"
  shows "UserService_update hash now tbl i updateUserDto = Inl Conflict"
  using findOne_live [OF wf t] findUnique_email_wf [OF wf r(1)] r(2) e
  by (simp add: UserService_update_def)

lemma update_own_email:
  assumes wf: "wf_table tbl" and t: "t \<in> set tbl" "u_id t = i" "u_deletedAt t = None"
    and e: "upd_email updateUserDto = Some (u_email t)"
  shows "\<exists>res. UserService_update hash now tbl i updateUserDto = Inr res"
proof -
  have keep: "u_email (updateData hash updateUserDto t) = u_email t"
    using e by (simp add: updateData_def)
  have "prisma_update tbl i (updateData hash updateUserDto) now \<noteq> None"
    using prisma_update_keeps_email [OF wf t(1), of "updateData hash updateUserDto" now] keep t(2)
    by simp
  with findOne_live [OF wf t] findUnique_email_wf [OF wf t(1)] t(2) e show ?thesis
    by (auto simp: UserService_update_def)
qed

text \<open>
  The lookup that opens an update comes before the email check: an id without a live
  row is NotFound, whatever the email.
\<close>

lemma update_target_not_live:
  "(\<forall>u\<in>set tbl. u_id u = i \<longrightarrow> u_deletedAt u \<noteq> None) \<Longrightarrow>
     UserService_update hash now tbl i updateUserDto = Inl NotFound"
  by (simp add: UserService_update_def findOne_NotFound)

text \<open>
  Claim C4: the email check of create and of update looks at every row, live or
  soft-deleted. Create fails with Conflict as soon as some row has the email. On a table
  that respects its keys, an update of a live user to a non-empty email that some row
  has fails with Conflict when that row is another user, and goes through when the row
  is the user being updated. (An update starts by looking its user up among the live
  rows, and skips the check for an empty email.)
\<close>

theorem email_check_ignores_soft_delete:
  "(\<forall>r\<in>set tbl. u_email r = c_email createUserDto \<longrightarrow>
       UserService_create hash newId now tbl createUserDto = Inl Conflict)
   \<and> (wf_table tbl \<longrightarrow>
        (\<forall>t\<in>set tbl. \<forall>r\<in>set tbl.
           u_id t = i \<and> u_deletedAt t = None
           \<and> upd_email updateUserDto = Some (u_email r) \<and> u_email r \<noteq> [] \<longrightarrow>
             (if u_id r = i
              then \<exists>res. UserService_update hash now tbl i updateUserDto = Inr res
              else UserService_update hash now tbl i updateUserDto = Inl Conflict)))"
proof (intro conjI ballI impI)
  fix r assume "r \<in> set tbl" "u_email r = c_email createUserDto"
  then show "UserService_create hash newId now tbl createUserDto = Inl Conflict"
    by (rule create_conflict)
next
  fix t r
  assume wf: "wf_table tbl" and t: "t \<in> set tbl" and r: "r \<in> set tbl"
    and h: "u_id t = i \<and> u_deletedAt t = None
           \<and> upd_email updateUserDto = Some (u_email r) \<and> u_email r \<noteq> []"
  show "if u_id r = i
        then \<exists>res. UserService_update hash now tbl i updateUserDto = Inr res
        else UserService_update hash now tbl i updateUserDto = Inl Conflict"
  proof (cases "u_id r = i")
    case True
    with h have "u_id r = u_id t" by simp
    from no_other_id [OF wf t r this] have "r = t" .
    with h update_own_email [OF wf t, of i updateUserDto hash now] True show ?thesis by simp
  next
    case False
    with h update_conflict [OF wf t _ _ r, of i updateUserDto hash now] show ?thesis by simp
  qed
qed

text \<open>
  C4 on the example table: bob is soft-deleted, and his email still blocks a new
  account and alice's change of email; alice may keep her own email in an update.
\<close>

theorem email_check_ignores_soft_delete_witness:
  "wf_table example_users
   \<and> u_deletedAt bob \<noteq> None
   \<and> UserService_create toy_hash ''u9'' 7 example_users
        \<lparr>c_email = ''bob@example.com'', c_name = None, c_password = ''secret''\<rparr> = Inl Conflict
   \<and> UserService_update toy_hash 7 example_users ''u1''
        \<lparr>upd_email = Some ''bob@example.com'', upd_name = None, upd_password = None\<rparr>
        = Inl Conflict
   \<and> UserService_update toy_hash 7 example_users ''u1''
        \<lparr>upd_email = Some ''alice@example.com'', upd_name = Some ''Al'', upd_password = None\<rparr>
        = Inr (excludePassword (user_object (alice\<lparr>u_name := Some ''Al'', u_updatedAt := 7\<rparr>)),
               [alice\<lparr>u_name := Some ''Al'', u_updatedAt := 7\<rparr>, bob, carol])"
proof -
  let ?h = toy_hash
  let ?c = "\<lparr>c_email = ''bob@example.com'', c_name = None, c_password = ''secret''\<rparr>"
  let ?d1 = "\<lparr>upd_email = Some ''bob@example.com'', upd_name = None, upd_password = None\<rparr>"
  let ?d2 = "\<lparr>upd_email = Some ''alice@example.com'', upd_name = Some ''Al'', upd_password = None\<rparr>"
  have wf: "wf_table example_users" by (rule wf_example_users)
  have del: "u_deletedAt bob \<noteq> None" by (simp add: bob_def)
  have a: "alice \<in> set example_users" and b: "bob \<in> set example_users"
    by (simp_all add: example_users_def)
  have cb: "u_email bob = c_email ?c" by (simp add: bob_def)
  from email_check_ignores_soft_delete
         [where tbl = example_users and createUserDto = ?c and hash = ?h and newId = "''u9''"
            and now = 7] b cb
  have r1: "UserService_create ?h ''u9'' 7 example_users ?c = Inl Conflict" by blast
  have h1: "u_id alice = ''u1'' \<and> u_deletedAt alice = None
            \<and> upd_email ?d1 = Some (u_email bob) \<and> u_email bob \<noteq> []"
    by (simp add: alice_def bob_def)
  have nb: "u_id bob \<noteq> ''u1''" by (simp add: bob_def)
  from email_check_ignores_soft_delete
         [where tbl = example_users and i = "''u1''" and updateUserDto = ?d1 and hash = ?h
            and now = 7] wf a b h1
  have "if u_id bob = ''u1''
        then \<exists>res. UserService_update ?h 7 example_users ''u1'' ?d1 = Inr res
        else UserService_update ?h 7 example_users ''u1'' ?d1 = Inl Conflict" by blast
  with nb have r2: "UserService_update ?h 7 example_users ''u1'' ?d1 = Inl Conflict"
    by (simp only: if_False)
  have r3: "UserService_update ?h 7 example_users ''u1'' ?d2
        = Inr (excludePassword (user_object (alice\<lparr>u_name := Some ''Al'', u_updatedAt := 7\<rparr>)),
               [alice\<lparr>u_name := Some ''Al'', u_updatedAt := 7\<rparr>, bob, carol])"
    by (simp add: UserService_update_def UserService_findOne_def findFirst_id_live_def
        findUnique_email_def prisma_update_def findUnique_id_def updateData_def
        example_users_def alice_def bob_def carol_def toy_hash_def)
  from wf del r1 r2 r3 show ?thesis by (intro conjI)
qed

subsection \<open>The password never leaves the service\<close>

lemma no_password_excludePassword: "no_password (excludePassword obj)"
  by (auto simp: no_password_def excludePassword_def)














section \<open>Properties of the role service\<close>

lemma grants_of_new_grants:
  "map (\<lambda>g. (rp_resource g, rp_action g)) (filter (\<lambda>g. rp_roleId g = rid) (new_grants rid pairs)) = pairs"
  by (induction pairs) (auto simp: new_grants_def)

lemma grants_of_new_grants_other:
  "other \<noteq> rid \<Longrightarrow> filter (\<lambda>g. rp_roleId g = other) (new_grants rid pairs) = []"
  by (induction pairs) (auto simp: new_grants_def)

lemma filter_no_grants:
  "(\<forall>g\<in>set gs. rp_roleId g \<noteq> rid) \<Longrightarrow> filter (\<lambda>g. rp_roleId g = rid) gs = []"
  by (induction gs) auto

lemma filter_filter_other:
  "other \<noteq> rid \<Longrightarrow>
     filter (\<lambda>g. rp_roleId g \<noteq> rid \<and> rp_roleId g = other) gs
       = filter (\<lambda>g. rp_roleId g = other) gs"
  by (induction gs) auto

lemma filter_filter_same:
  "filter (\<lambda>g. rp_roleId g = rid) (filter (\<lambda>g. rp_roleId g \<noteq> rid) gs) = []"
  by (induction gs) auto

lemma create_grants:
  assumes fk: "\<forall>g\<in>set (role_permissions db). rp_roleId g \<in> set (map role_id (roles db))"
    and fresh: "\<forall>r\<in>set (roles db). role_id r \<noteq> newId \<and> role_name r \<noteq> cr_name dto"
    and ps: "cr_permissions dto = Some ps" and d: "distinct (flatten_permissions ps)"
  shows "\<exists>db'. RoleService_create newId db dto = Inr db'
           \<and> grants_of db' newId = flatten_permissions ps
           \<and> (\<forall>other. other \<noteq> newId \<longrightarrow> grants_of db' other = grants_of db other)"
proof -
  define pairs where "pairs = (if length ps = 0 then [] else flatten_permissions ps)"
  have pairs: "pairs = flatten_permissions ps"
    by (simp add: pairs_def flatten_permissions_def)
  define db' where "db' = \<lparr>roles = roles db @ [\<lparr>role_id = newId, role_name = cr_name dto\<rparr>],
                 role_permissions = role_permissions db @ new_grants newId pairs\<rparr>"
  from fresh have nf: "\<not> list_ex (\<lambda>r. role_id r = newId \<or> role_name r = cr_name dto) (roles db)"
    by (auto simp: list_ex_iff)
  with d pairs have "prisma_role_create db newId (cr_name dto) pairs = Some db'"
    by (simp add: prisma_role_create_def db'_def)
  with ps have c: "RoleService_create newId db dto = Inr db'"
    by (simp add: RoleService_create_def pairs_def)
  from fk fresh have "\<forall>g\<in>set (role_permissions db). rp_roleId g \<noteq> newId" by force
  then have none: "filter (\<lambda>g. rp_roleId g = newId) (role_permissions db) = []"
    by (rule filter_no_grants)
  have g: "grants_of db' newId = flatten_permissions ps"
    by (simp add: grants_of_def db'_def none grants_of_new_grants pairs)
  have o: "\<forall>other. other \<noteq> newId \<longrightarrow> grants_of db' other = grants_of db other"
    by (simp add: grants_of_def db'_def grants_of_new_grants_other)
  from c g o show ?thesis by blast
qed

lemma update_grants:
  assumes ex: "\<exists>r\<in>set (roles db). role_id r = rid"
    and nm: "\<forall>n. ur_name dto = Some n \<longrightarrow> (\<forall>r\<in>set (roles db). role_name r = n \<longrightarrow> role_id r = rid)"
    and ps: "ur_permissions dto = Some ps" and d: "distinct (flatten_permissions ps)"
  shows "\<exists>db'. RoleService_update db rid dto = Inr db'
           \<and> grants_of db' rid = flatten_permissions ps
           \<and> (\<forall>other. other \<noteq> rid \<longrightarrow> grants_of db' other = grants_of db other)"
proof -
  define db' where "db' =
        \<lparr>roles = map (\<lambda>r. if role_id r = rid
                              then (case ur_name dto of None \<Rightarrow> r | Some n \<Rightarrow> r\<lparr>role_name := n\<rparr>)
                              else r) (roles db),
         role_permissions =
                filter (\<lambda>g. rp_roleId g \<noteq> rid) (role_permissions db)
                  @ new_grants rid (flatten_permissions ps)\<rparr>"
  from ex have e: "list_ex (\<lambda>r. role_id r = rid) (roles db)" by (auto simp: list_ex_iff)
  from nm have n: "\<not> (case ur_name dto of None \<Rightarrow> False
               | Some n \<Rightarrow> list_ex (\<lambda>r. role_id r \<noteq> rid \<and> role_name r = n) (roles db))"
    by (auto simp: list_ex_iff split: option.splits)
  from e n d have "prisma_role_update db rid (ur_name dto) (Some (flatten_permissions ps)) = Some db'"
    by (simp add: prisma_role_update_def db'_def)
  with ps have c: "RoleService_update db rid dto = Inr db'"
    by (simp add: RoleService_update_def)
  have g: "grants_of db' rid = flatten_permissions ps"
    by (simp add: grants_of_def db'_def filter_filter_same grants_of_new_grants)
  have o: "\<forall>other. other \<noteq> rid \<longrightarrow> grants_of db' other = grants_of db other"
    by (simp add: grants_of_def db'_def filter_filter_other grants_of_new_grants_other)
  from c g o show ?thesis by blast
qed

text \<open>
  A list that names a pair twice is turned down by the unique index: the operation
  fails as a whole.
\<close>

lemma create_rejects_repeated_pair:
  assumes "cr_permissions dto = Some ps" and "\<not> distinct (flatten_permissions ps)"
  shows "RoleService_create newId db dto = Inl ClientError"
proof -
  from assms(2) have "ps \<noteq> []" by (auto simp: flatten_permissions_def)
  with assms show ?thesis
    by (simp add: RoleService_create_def prisma_role_create_def)
qed

lemma update_rejects_repeated_pair:
  assumes "ur_permissions dto = Some ps" and "\<not> distinct (flatten_permissions ps)"
  shows "RoleService_update db rid dto = Inl ClientError"
  using assms by (simp add: RoleService_update_def prisma_role_update_def)

text \<open>
  Claim C7 says that creating a role with a permission list yields exactly one grant for
  each (resource, action) pair of the flattened list, and that an update leaves exactly
  the submitted set. The request type accepts a list that names a pair twice, and then
  the unique index on role, resource and action turns the whole operation down: for USER
  with READ and READ no role and no grant is created, and an update replaces nothing.
\<close>

theorem role_repeated_pair_counterexample:
  "flatten_permissions [\<lparr>p_resource = USER, p_action = [READ, READ]\<rparr>]
     = [(USER, READ), (USER, READ)]
   \<and> RoleService_create ''r2'' example_roles
        \<lparr>cr_name = ''editor'',
         cr_permissions = Some [\<lparr>p_resource = USER, p_action = [READ, READ]\<rparr>]\<rparr>
      = Inl ClientError
   \<and> \<not> (\<exists>db'. RoleService_create ''r2'' example_roles
        \<lparr>cr_name = ''editor'',
         cr_permissions = Some [\<lparr>p_resource = USER, p_action = [READ, READ]\<rparr>]\<rparr>
      = Inr db')
   \<and> RoleService_update example_roles_editor ''r2''
        \<lparr>ur_name = None,
         ur_permissions = Some [\<lparr>p_resource = USER, p_action = [READ, READ]\<rparr>]\<rparr>
      = Inl ClientError
   \<and> \<not> (\<exists>db'. RoleService_update example_roles_editor ''r2''
        \<lparr>ur_name = None,
         ur_permissions = Some [\<lparr>p_resource = USER, p_action = [READ, READ]\<rparr>]\<rparr>
      = Inr db')"
  by (simp add: RoleService_create_def RoleService_update_def prisma_role_create_def
      prisma_role_update_def flatten_permissions_def example_roles_def
      example_roles_editor_def)

text \<open>
  Claim C7 as amended: for a permission list in which no (resource, action) pair occurs
  twice, creating a role stores exactly the flattened list as the grants of the new
  role, one grant for each pair, and leaves the grants of every other role alone;
  updating a role with such a list leaves exactly the flattened list as its grants,
  whatever it had before (a full replace, no diff or merge). Both are stated for
  requests the database accepts otherwise: a free id and name for the creation, an
  existing role and a name no other role has for the update. A list that names a pair
  twice makes either operation fail with the database client's error. Flattening takes
  the entries in order and, within an entry, pairs its resource with each of its
  actions in order; USER with READ and UPDATE flattens to two pairs.
\<close>

theorem role_permissions_replace:
  assumes "wf_role_db db"
  shows
  "(\<forall>ps. cr_permissions cdto = Some ps
        \<and> (\<forall>r\<in>set (roles db). role_id r \<noteq> newId \<and> role_name r \<noteq> cr_name cdto)
        \<and> distinct (flatten_permissions ps) \<longrightarrow>
      (\<exists>db'. RoleService_create newId db cdto = Inr db'
          \<and> grants_of db' newId = flatten_permissions ps
          \<and> (\<forall>other. other \<noteq> newId \<longrightarrow> grants_of db' other = grants_of db other)))
   \<and> (\<forall>ps. ur_permissions udto = Some ps
        \<and> (\<exists>r\<in>set (roles db). role_id r = rid)
        \<and> (\<forall>n. ur_name udto = Some n \<longrightarrow>
              (\<forall>r\<in>set (roles db). role_name r = n \<longrightarrow> role_id r = rid))
        \<and> distinct (flatten_permissions ps) \<longrightarrow>
      (\<exists>db'. RoleService_update db rid udto = Inr db'
          \<and> grants_of db' rid = flatten_permissions ps
          \<and> (\<forall>other. other \<noteq> rid \<longrightarrow> grants_of db' other = grants_of db other)))
   \<and> flatten_permissions [\<lparr>p_resource = USER, p_action = [READ, UPDATE]\<rparr>]
        = [(USER, READ), (USER, UPDATE)]
   \<and> (\<forall>ps. cr_permissions cdto = Some ps \<and> \<not> distinct (flatten_permissions ps) \<longrightarrow>
         RoleService_create newId db cdto = Inl ClientError)
   \<and> (\<forall>ps. ur_permissions udto = Some ps \<and> \<not> distinct (flatten_permissions ps) \<longrightarrow>
         RoleService_update db rid udto = Inl ClientError)
   \<and> flatten_permissions [] = []
   \<and> (\<forall>p ps. flatten_permissions (p # ps)
         = map (\<lambda>a. (p_resource p, a)) (p_action p) @ flatten_permissions ps)"
proof (intro conjI allI impI)
  fix ps
  assume h: "cr_permissions cdto = Some ps
        \<and> (\<forall>r\<in>set (roles db). role_id r \<noteq> newId \<and> role_name r \<noteq> cr_name cdto)
        \<and> distinct (flatten_permissions ps)"
  from assms have fk: "\<forall>g\<in>set (role_permissions db). rp_roleId g \<in> set (map role_id (roles db))"
    by (simp add: wf_role_db_def)
  from h show "\<exists>db'. RoleService_create newId db cdto = Inr db'
          \<and> grants_of db' newId = flatten_permissions ps
          \<and> (\<forall>other. other \<noteq> newId \<longrightarrow> grants_of db' other = grants_of db other)"
    by (intro create_grants [OF fk]) simp_all
next
  fix ps
  assume h: "ur_permissions udto = Some ps
        \<and> (\<exists>r\<in>set (roles db). role_id r = rid)
        \<and> (\<forall>n. ur_name udto = Some n \<longrightarrow>
              (\<forall>r\<in>set (roles db). role_name r = n \<longrightarrow> role_id r = rid))
        \<and> distinct (flatten_permissions ps)"
  then show "\<exists>db'. RoleService_update db rid udto = Inr db'
          \<and> grants_of db' rid = flatten_permissions ps
          \<and> (\<forall>other. other \<noteq> rid \<longrightarrow> grants_of db' other = grants_of db other)"
    by (intro update_grants) simp_all
next
  show "flatten_permissions [\<lparr>p_resource = USER, p_action = [READ, UPDATE]\<rparr>]
        = [(USER, READ), (USER, UPDATE)]"
    by (simp add: flatten_permissions_def)
next
  fix ps
  assume "cr_permissions cdto = Some ps \<and> \<not> distinct (flatten_permissions ps)"
  then show "RoleService_create newId db cdto = Inl ClientError"
    by (intro create_rejects_repeated_pair [of cdto ps]) simp_all
next
  fix ps
  assume "ur_permissions udto = Some ps \<and> \<not> distinct (flatten_permissions ps)"
  then show "RoleService_update db rid udto = Inl ClientError"
    by (intro update_rejects_repeated_pair [of udto ps]) simp_all
next
  show "flatten_permissions [] = []" by (simp add: flatten_permissions_def)
next
  fix p ps
  show "flatten_permissions (p # ps)
         = map (\<lambda>a. (p_resource p, a)) (p_action p) @ flatten_permissions ps"
    by (simp add: flatten_permissions_def)
qed

text \<open>
  C7 as amended, on the example: the editor role is created with exactly two grants; an
  update with PERMISSION/READ leaves exactly that one grant, and the grant of the admin
  role stays; a list of two entries that both name USER/READ is turned down.
\<close>

theorem role_permissions_replace_witness:
  "wf_role_db example_roles
   \<and> flatten_permissions
        [\<lparr>p_resource = USER, p_action = [READ]\<rparr>,
         \<lparr>p_resource = USER, p_action = [READ, UPDATE]\<rparr>]
      = [(USER, READ), (USER, READ), (USER, UPDATE)]
   \<and> RoleService_create ''r3'' example_roles_editor
        \<lparr>cr_name = ''viewer'',
         cr_permissions = Some [\<lparr>p_resource = USER, p_action = [READ]\<rparr>,
                                \<lparr>p_resource = USER, p_action = [READ, UPDATE]\<rparr>]\<rparr>
      = Inl ClientError
   \<and> RoleService_create ''r2'' example_roles editor_dto = Inr example_roles_editor
   \<and> grants_of example_roles_editor ''r2'' = [(USER, READ), (USER, UPDATE)]
   \<and> length (grants_of example_roles_editor ''r2'') = 2
   \<and> wf_role_db example_roles_editor
   \<and> RoleService_update example_roles_editor ''r2''
        \<lparr>ur_name = None,
         ur_permissions = Some [\<lparr>p_resource = PERMISSION, p_action = [READ]\<rparr>]\<rparr>
      = Inr \<lparr>roles = roles example_roles_editor,
             role_permissions =
               [\<lparr>rp_roleId = ''r1'', rp_resource = USER, rp_action = DELETE\<rparr>,
                \<lparr>rp_roleId = ''r2'', rp_resource = PERMISSION, rp_action = READ\<rparr>]\<rparr>
   \<and> grants_of
        \<lparr>roles = roles example_roles_editor,
         role_permissions =
           [\<lparr>rp_roleId = ''r1'', rp_resource = USER, rp_action = DELETE\<rparr>,
            \<lparr>rp_roleId = ''r2'', rp_resource = PERMISSION, rp_action = READ\<rparr>]\<rparr> ''r2''
      = [(PERMISSION, READ)]"
proof -
  let ?ps = "[\<lparr>p_resource = USER, p_action = [READ, UPDATE]\<rparr>]"
  let ?qs = "[\<lparr>p_resource = PERMISSION, p_action = [READ]\<rparr>]"
  let ?u = "\<lparr>ur_name = None, ur_permissions = Some ?qs\<rparr>"
  let ?db2 = "\<lparr>roles = roles example_roles_editor,
         role_permissions =
           [\<lparr>rp_roleId = ''r1'', rp_resource = USER, rp_action = DELETE\<rparr>,
            \<lparr>rp_roleId = ''r2'', rp_resource = PERMISSION, rp_action = READ\<rparr>]\<rparr>"
  have wf0: "wf_role_db example_roles"
    by (simp add: wf_role_db_def example_roles_def)
  have wf1: "wf_role_db example_roles_editor"
    by (simp add: wf_role_db_def example_roles_editor_def)
  have c: "RoleService_create ''r2'' example_roles editor_dto = Inr example_roles_editor"
    by (simp add: RoleService_create_def prisma_role_create_def flatten_permissions_def
        new_grants_def example_roles_def editor_dto_def example_roles_editor_def)
  have u: "RoleService_update example_roles_editor ''r2'' ?u = Inr ?db2"
    by (simp add: RoleService_update_def prisma_role_update_def flatten_permissions_def
        new_grants_def example_roles_editor_def)
  have fl: "flatten_permissions ?ps = [(USER, READ), (USER, UPDATE)]"
    and fq: "flatten_permissions ?qs = [(PERMISSION, READ)]"
    by (simp_all add: flatten_permissions_def)
  have hc: "cr_permissions editor_dto = Some ?ps
        \<and> (\<forall>r\<in>set (roles example_roles). role_id r \<noteq> ''r2'' \<and> role_name r \<noteq> cr_name editor_dto)
        \<and> distinct (flatten_permissions ?ps)"
    by (simp add: editor_dto_def example_roles_def fl)
  from role_permissions_replace [OF wf0, where cdto = editor_dto and newId = "''r2''"]
  have "\<forall>ps. cr_permissions editor_dto = Some ps
        \<and> (\<forall>r\<in>set (roles example_roles). role_id r \<noteq> ''r2'' \<and> role_name r \<noteq> cr_name editor_dto)
        \<and> distinct (flatten_permissions ps) \<longrightarrow>
      (\<exists>db'. RoleService_create ''r2'' example_roles editor_dto = Inr db'
          \<and> grants_of db' ''r2'' = flatten_permissions ps
          \<and> (\<forall>other. other \<noteq> ''r2'' \<longrightarrow> grants_of db' other = grants_of example_roles other))"
    by (rule conjunct1)
  from this [rule_format, OF hc]
  obtain db' where c': "RoleService_create ''r2'' example_roles editor_dto = Inr db'"
    "grants_of db' ''r2'' = flatten_permissions ?ps"
    by (elim exE conjE)
  from c c' fl have g1: "grants_of example_roles_editor ''r2'' = [(USER, READ), (USER, UPDATE)]"
    by simp
  then have l1: "length (grants_of example_roles_editor ''r2'') = 2" by simp
  have hu: "ur_permissions ?u = Some ?qs
        \<and> (\<exists>r\<in>set (roles example_roles_editor). role_id r = ''r2'')
        \<and> (\<forall>n. ur_name ?u = Some n \<longrightarrow>
              (\<forall>r\<in>set (roles example_roles_editor). role_name r = n \<longrightarrow> role_id r = ''r2''))
        \<and> distinct (flatten_permissions ?qs)"
    by (simp add: example_roles_editor_def fq)
  from role_permissions_replace [OF wf1, where udto = ?u and rid = "''r2''"]
  have "\<forall>ps. ur_permissions ?u = Some ps
        \<and> (\<exists>r\<in>set (roles example_roles_editor). role_id r = ''r2'')
        \<and> (\<forall>n. ur_name ?u = Some n \<longrightarrow>
              (\<forall>r\<in>set (roles example_roles_editor). role_name r = n \<longrightarrow> role_id r = ''r2''))
        \<and> distinct (flatten_permissions ps) \<longrightarrow>
      (\<exists>db'. RoleService_update example_roles_editor ''r2'' ?u = Inr db'
          \<and> grants_of db' ''r2'' = flatten_permissions ps
          \<and> (\<forall>other. other \<noteq> ''r2'' \<longrightarrow> grants_of db' other = grants_of example_roles_editor other))"
    by (rule conjunct1 [OF conjunct2])
  from this [rule_format, OF hu]
  obtain db'' where u': "RoleService_update example_roles_editor ''r2'' ?u = Inr db''"
    "grants_of db'' ''r2'' = flatten_permissions ?qs"
    by (elim exE conjE)
  from u u' fq have g2: "grants_of ?db2 ''r2'' = [(PERMISSION, READ)]" by simp
  let ?rs = "[\<lparr>p_resource = USER, p_action = [READ]\<rparr>,
              \<lparr>p_resource = USER, p_action = [READ, UPDATE]\<rparr>]"
  let ?v = "\<lparr>cr_name = ''viewer'', cr_permissions = Some ?rs\<rparr>"
  have fr: "flatten_permissions ?rs = [(USER, READ), (USER, READ), (USER, UPDATE)]"
    by (simp add: flatten_permissions_def)
  have hr: "cr_permissions ?v = Some ?rs \<and> \<not> distinct (flatten_permissions ?rs)"
    by (simp add: fr)
  from role_permissions_replace [OF wf1, where cdto = ?v and newId = "''r3''",
      THEN conjunct2, THEN conjunct2, THEN conjunct2, THEN conjunct1, rule_format, OF hr]
  have rj: "RoleService_create ''r3'' example_roles_editor ?v = Inl ClientError" .
  from wf0 fr rj c g1 l1 wf1 u g2 show ?thesis by (intro conjI)
qed

section \<open>Properties of the file service\<close>

lemma str_includes_sublist: "str_includes s sub = sublist sub s"
  by (induction s) (simp_all add: sublist_Cons_right)

lemma find_first:
  "(\<forall>p\<in>set pre. \<not> P p) \<Longrightarrow> P x \<Longrightarrow> find P (pre @ x # post) = Some x"
  by (induction pre) simp_all

declare show_nat.simps [simp del]

lemma digits_val_snoc: "digits_val (ds @ [c]) = 10 * digits_val ds + digit_val c"
  by (simp add: digits_val_def)

lemma digit_val_char_of: "d < 10 \<Longrightarrow> digit_val (char_of (48 + d)) = int d" for d :: nat
  by (simp add: digit_val_def)

lemma is_digit_char_of: "d < 10 \<Longrightarrow> is_digit (char_of (48 + d))" for d :: nat
  by (simp add: is_digit_def in_range_def)

lemma digits_val_show_nat: "digits_val (show_nat n) = int n"
proof (induction n rule: show_nat.induct)
  case (1 n)
  show ?case
  proof (cases "n < 10")
    case True
    then show ?thesis
      by (subst show_nat.simps) (simp add: digits_val_def digit_val_char_of)
  next
    case False
    have "n mod 10 < 10" by simp
    with False 1 have "digits_val (show_nat n) = 10 * int (n div 10) + int (n mod 10)"
      by (subst show_nat.simps) (simp add: digits_val_snoc digit_val_char_of)
    then show ?thesis by (simp add: zdiv_int zmod_int)
  qed
qed

lemma show_nat_digits: "c \<in> set (show_nat n) \<Longrightarrow> is_digit c"
proof (induction n rule: show_nat.induct)
  case (1 n)
  show ?case
  proof (cases "n < 10")
    case True
    with 1(2) show ?thesis
      by (subst (asm) show_nat.simps) (simp add: is_digit_char_of)
  next
    case False
    have m: "n mod 10 < 10" by simp
    from 1(2) False have "c \<in> set (show_nat (n div 10)) \<or> c = char_of (48 + n mod 10)"
      by (subst (asm) show_nat.simps) auto
    with 1(1) [OF False] is_digit_char_of [OF m] show ?thesis by auto
  qed
qed

lemma show_nat_inj:
  assumes "show_nat a = show_nat b"
  shows "a = b"
proof -
  have "int a = digits_val (show_nat a)" by (simp only: digits_val_show_nat)
  also have "\<dots> = digits_val (show_nat b)" by (simp only: assms)
  also have "\<dots> = int b" by (simp only: digits_val_show_nat)
  finally show ?thesis by simp
qed

lemma show_nat_no_dash: "CHR ''-'' \<notin> set (show_nat n)"
  using show_nat_digits [of "CHR ''-''" n] by (auto simp: is_digit_def in_range_def)

lemma split_at_first_dash:
  assumes "xs @ CHR ''-'' # r1 = ys @ CHR ''-'' # r2"
    and "CHR ''-'' \<notin> set xs" and "CHR ''-'' \<notin> set ys"
  shows "xs = ys \<and> r1 = r2"
proof -
  have "takeWhile (\<lambda>c. c \<noteq> CHR ''-'') (xs @ CHR ''-'' # r1) = xs"
    using assms(2) by (auto simp: takeWhile_tail)
  moreover have "takeWhile (\<lambda>c. c \<noteq> CHR ''-'') (ys @ CHR ''-'' # r2) = ys"
    using assms(3) by (auto simp: takeWhile_tail)
  ultimately have "xs = ys" using assms(1) by simp
  with assms(1) show ?thesis by simp
qed

lemma generateObjectName_inj:
  assumes "generateObjectName t1 u1 name = generateObjectName t2 u2 name"
  shows "t1 = t2 \<and> u1 = u2"
proof -
  from assms have "show_nat t1 @ CHR ''-'' # (u1 @ ''-'' @ sanitize name)
      = show_nat t2 @ CHR ''-'' # (u2 @ ''-'' @ sanitize name)"
    by (simp add: generateObjectName_def)
  from split_at_first_dash [OF this show_nat_no_dash show_nat_no_dash]
  have n: "show_nat t1 = show_nat t2" and "u1 @ ''-'' @ sanitize name = u2 @ ''-'' @ sanitize name"
    by simp_all
  then have "u1 = u2" by simp
  with show_nat_inj [OF n] show ?thesis by simp
qed

lemma sanitize_nth:
  "k < length originalName \<Longrightarrow>
     sanitize originalName ! k
       = (if is_safe_char (originalName ! k) then originalName ! k else CHR ''_'')"
  by (simp add: sanitize_def)

text \<open>
  Claim C8: the object name of an upload is the timestamp in decimal, a dash, the UUID,
  a dash and the sanitized original name; sanitizing keeps the length and replaces
  exactly the characters outside \<open>[A-Za-z0-9.-]\<close> by an underscore. Two uploads of
  the same original name whose timestamp or UUID differ get different object names.
\<close>

theorem generateObjectName_spec:
  "generateObjectName timestamp uuid originalName
     = show_nat timestamp @ ''-'' @ uuid @ ''-'' @ sanitize originalName
   \<and> digits_val (show_nat timestamp) = int timestamp
   \<and> (\<forall>c\<in>set (show_nat timestamp). is_digit c)
   \<and> length (sanitize originalName) = length originalName
   \<and> (\<forall>k<length originalName.
         sanitize originalName ! k
           = (if is_safe_char (originalName ! k) then originalName ! k else CHR ''_''))
   \<and> (t1 \<noteq> t2 \<or> u1 \<noteq> u2 \<longrightarrow>
         generateObjectName t1 u1 originalName \<noteq> generateObjectName t2 u2 originalName)"
proof (intro conjI ballI allI impI)
  show "generateObjectName timestamp uuid originalName
     = show_nat timestamp @ ''-'' @ uuid @ ''-'' @ sanitize originalName"
    by (simp add: generateObjectName_def)
  show "digits_val (show_nat timestamp) = int timestamp" by (rule digits_val_show_nat)
  show "length (sanitize originalName) = length originalName" by (simp add: sanitize_def)
next
  fix c assume "c \<in> set (show_nat timestamp)"
  then show "is_digit c" by (rule show_nat_digits)
next
  fix k assume "k < length originalName"
  then show "sanitize originalName ! k
           = (if is_safe_char (originalName ! k) then originalName ! k else CHR ''_'')"
    by (rule sanitize_nth)
next
  assume d: "t1 \<noteq> t2 \<or> u1 \<noteq> u2"
  show "generateObjectName t1 u1 originalName \<noteq> generateObjectName t2 u2 originalName"
  proof
    assume "generateObjectName t1 u1 originalName = generateObjectName t2 u2 originalName"
    then have "t1 = t2 \<and> u1 = u2" by (rule generateObjectName_inj)
    with d show False by simp
  qed
qed

text \<open>
  C8 for two uploads of one file in the same millisecond: the names follow the format,
  the blank and the brackets become underscores, and the two names differ.
\<close>

theorem generateObjectName_spec_witness:
  "generateObjectName 1733123456789 ''3b241101-e2bb-4255-8caf-4136c566a962'' ''my report (1).pdf''
     = ''1733123456789-3b241101-e2bb-4255-8caf-4136c566a962-my_report__1_.pdf''
   \<and> generateObjectName 1733123456789 ''9f0c2d4e-7a61-4b3f-9d2e-5c8b1a6f0e47'' ''my report (1).pdf''
     = ''1733123456789-9f0c2d4e-7a61-4b3f-9d2e-5c8b1a6f0e47-my_report__1_.pdf''
   \<and> generateObjectName 1733123456789 ''3b241101-e2bb-4255-8caf-4136c566a962'' ''my report (1).pdf''
     \<noteq> generateObjectName 1733123456789 ''9f0c2d4e-7a61-4b3f-9d2e-5c8b1a6f0e47'' ''my report (1).pdf''
   \<and> sanitize ''my report (1).pdf'' ! 2 = CHR ''_''"
proof -
  let ?u1 = "''3b241101-e2bb-4255-8caf-4136c566a962''"
  let ?u2 = "''9f0c2d4e-7a61-4b3f-9d2e-5c8b1a6f0e47''"
  let ?n = "''my report (1).pdf''"
  note spec = generateObjectName_spec
    [where timestamp = 1733123456789 and uuid = ?u1 and originalName = ?n
       and ?t1.0 = 1733123456789 and ?t2.0 = 1733123456789 and ?u1.0 = ?u1 and ?u2.0 = ?u2]
  have ts: "show_nat 1733123456789 = ''1733123456789''"
    by (simp add: show_nat.simps char_of_def bit_0)
  have sn: "sanitize ?n = ''my_report__1_.pdf''"
    by (simp add: sanitize_def is_safe_char_def in_range_def)
  have g1: "generateObjectName 1733123456789 ?u1 ?n
     = ''1733123456789-3b241101-e2bb-4255-8caf-4136c566a962-my_report__1_.pdf''"
    by (simp add: generateObjectName_def ts sn)
  have g2: "generateObjectName 1733123456789 ?u2 ?n
     = ''1733123456789-9f0c2d4e-7a61-4b3f-9d2e-5c8b1a6f0e47-my_report__1_.pdf''"
    by (simp add: generateObjectName_def ts sn)
  have ne: "(1733123456789::nat) \<noteq> 1733123456789 \<or> ?u1 \<noteq> ?u2" by simp
  from spec have "(1733123456789::nat) \<noteq> 1733123456789 \<or> ?u1 \<noteq> ?u2 \<longrightarrow>
      generateObjectName 1733123456789 ?u1 ?n \<noteq> generateObjectName 1733123456789 ?u2 ?n"
    by (elim conjE)
  from this [rule_format, OF ne]
  have d: "generateObjectName 1733123456789 ?u1 ?n \<noteq> generateObjectName 1733123456789 ?u2 ?n" .
  have k: "(2::nat) < length ?n" by simp
  from spec have "\<forall>k<length ?n.
         sanitize ?n ! k = (if is_safe_char (?n ! k) then ?n ! k else CHR ''_'')"
    by (elim conjE)
  from this [rule_format, OF k] have s2: "sanitize ?n ! 2 = CHR ''_''"
    by (simp add: is_safe_char_def in_range_def)
  from g1 g2 d s2 show ?thesis by (intro conjI)
qed

subsection \<open>Retrieval by identifier\<close>

lemma statObject_found:
  assumes "wf_store st" and "reachable st" and "ob \<in> set (objects st)"
  shows "statObject st (o_name ob) = Inr ob"
  using find_key_unique [of o_name "objects st" ob "\<lambda>_. True"] assms
  by (simp add: statObject_def wf_store_def)

lemma statObject_missing:
  assumes "reachable st" and "\<forall>x\<in>set (objects st). o_name x \<noteq> n"
  shows "statObject st n = Inl MinioNotFound"
proof -
  from assms(2) have "find (\<lambda>ob. o_name ob = n) (objects st) = None"
    by (simp add: find_None_iff)
  with assms(1) show ?thesis by (simp add: statObject_def)
qed

lemma getFile_exact:
  assumes "wf_store st" and "reachable st" and "ob \<in> set (objects st)"
    and "o_name ob = identifier"
  shows "getFile cfg st identifier =
      Inr \<lparr>f_bucket = bucketName cfg, f_objectName = identifier, f_etag = o_etag ob,
           f_versionId = o_versionId ob, f_size = o_size ob, f_mimetype = mimetype_of ob,
           f_url = getFilePublicUrl cfg identifier\<rparr>"
  using statObject_found [OF assms(1-3)] assms(4)
  by (simp add: getFile_def fileExists_def getFileMetadata_def)

lemma getFileById_first:
  assumes "wf_store st" and "reachable st" and "objects st = pre @ ob # post"
    and "\<forall>p\<in>set pre. \<not> sublist identifier (o_name p)" and "sublist identifier (o_name ob)"
  shows "getFileById cfg st identifier =
      Inr (Some \<lparr>f_bucket = bucketName cfg, f_objectName = o_name ob, f_etag = o_etag ob,
           f_versionId = o_versionId ob, f_size = o_size ob, f_mimetype = mimetype_of ob,
           f_url = getFilePublicUrl cfg (o_name ob)\<rparr>)"
proof -
  have "find (\<lambda>x. str_includes (o_name x) identifier) (pre @ ob # post) = Some ob"
    using assms(4,5) by (intro find_first) (simp_all add: str_includes_sublist)
  moreover from assms(3) have "ob \<in> set (objects st)" by simp
  from statObject_found [OF assms(1,2) this] have "statObject st (o_name ob) = Inr ob" .
  ultimately show ?thesis using assms(2,3)
    by (simp add: getFileById_def listObjectsV2_def)
qed

lemma getFileById_none:
  assumes "reachable st" and "\<forall>x\<in>set (objects st). \<not> sublist identifier (o_name x)"
  shows "getFileById cfg st identifier = Inr None"
proof -
  from assms(2) have "find (\<lambda>x. str_includes (o_name x) identifier) (objects st) = None"
    by (simp add: find_None_iff str_includes_sublist)
  with assms(1) show ?thesis by (simp add: getFileById_def listObjectsV2_def)
qed

text \<open>
  Claim C5: retrieval by a client-supplied identifier. In a bucket whose names are keys,
  while the store answers: if an object has exactly that name, the result is that
  object's metadata under the identifier; if none has, the result is the first object of
  the listing whose name contains the identifier as a contiguous run; if no name
  contains it, the service returns null and the controller fails with NotFound. When the
  store does not answer the outcome is another one: the service's lookup fails with
  InternalServerError and the controller lets the client's error through.
\<close>

theorem getFile_resolution:
  assumes "wf_store st"
  shows
  "(\<forall>ob\<in>set (objects st). reachable st \<and> o_name ob = identifier \<longrightarrow>
       getFile cfg st identifier =
         Inr \<lparr>f_bucket = bucketName cfg, f_objectName = identifier, f_etag = o_etag ob,
              f_versionId = o_versionId ob, f_size = o_size ob, f_mimetype = mimetype_of ob,
              f_url = getFilePublicUrl cfg identifier\<rparr>)
   \<and> (\<forall>pre ob post.
         reachable st \<and> (\<forall>x\<in>set (objects st). o_name x \<noteq> identifier)
         \<and> objects st = pre @ ob # post
         \<and> (\<forall>p\<in>set pre. \<not> sublist identifier (o_name p))
         \<and> sublist identifier (o_name ob) \<longrightarrow>
       getFile cfg st identifier =
         Inr \<lparr>f_bucket = bucketName cfg, f_objectName = o_name ob, f_etag = o_etag ob,
              f_versionId = o_versionId ob, f_size = o_size ob, f_mimetype = mimetype_of ob,
              f_url = getFilePublicUrl cfg (o_name ob)\<rparr>)
   \<and> (reachable st \<and> (\<forall>x\<in>set (objects st). \<not> sublist identifier (o_name x)) \<longrightarrow>
         getFileById cfg st identifier = Inr None
         \<and> getFile cfg st identifier = Inl NotFound)
   \<and> (\<not> reachable st \<longrightarrow>
         getFileById cfg st identifier = Inl InternalServerError
         \<and> getFile cfg st identifier = Inl ClientError)"
proof (intro conjI ballI allI impI)
  fix ob assume "ob \<in> set (objects st)" "reachable st \<and> o_name ob = identifier"
  then show "getFile cfg st identifier =
         Inr \<lparr>f_bucket = bucketName cfg, f_objectName = identifier, f_etag = o_etag ob,
              f_versionId = o_versionId ob, f_size = o_size ob, f_mimetype = mimetype_of ob,
              f_url = getFilePublicUrl cfg identifier\<rparr>"
    by (intro getFile_exact [OF assms]) simp_all
next
  fix pre ob post
  assume h: "reachable st \<and> (\<forall>x\<in>set (objects st). o_name x \<noteq> identifier)
         \<and> objects st = pre @ ob # post
         \<and> (\<forall>p\<in>set pre. \<not> sublist identifier (o_name p))
         \<and> sublist identifier (o_name ob)"
  then have r: "reachable st" and ne: "\<forall>x\<in>set (objects st). o_name x \<noteq> identifier"
    and o: "objects st = pre @ ob # post"
    and np: "\<forall>p\<in>set pre. \<not> sublist identifier (o_name p)"
    and sb: "sublist identifier (o_name ob)"
    by blast+
  have m: "statObject st identifier = Inl MinioNotFound"
    by (rule statObject_missing [OF r ne])
  have "getFileById cfg st identifier =
      Inr (Some \<lparr>f_bucket = bucketName cfg, f_objectName = o_name ob, f_etag = o_etag ob,
           f_versionId = o_versionId ob, f_size = o_size ob, f_mimetype = mimetype_of ob,
           f_url = getFilePublicUrl cfg (o_name ob)\<rparr>)"
    by (rule getFileById_first [OF assms r o np sb])
  with m show "getFile cfg st identifier =
         Inr \<lparr>f_bucket = bucketName cfg, f_objectName = o_name ob, f_etag = o_etag ob,
              f_versionId = o_versionId ob, f_size = o_size ob, f_mimetype = mimetype_of ob,
              f_url = getFilePublicUrl cfg (o_name ob)\<rparr>"
    by (simp add: getFile_def fileExists_def)
next
  assume h: "reachable st \<and> (\<forall>x\<in>set (objects st). \<not> sublist identifier (o_name x))"
  then show n: "getFileById cfg st identifier = Inr None"
    by (intro getFileById_none) simp_all
  have "\<forall>x\<in>set (objects st). o_name x \<noteq> identifier"
  proof
    fix x assume "x \<in> set (objects st)"
    with h have "\<not> sublist identifier (o_name x)" by simp
    then show "o_name x \<noteq> identifier" by auto
  qed
  with h have "statObject st identifier = Inl MinioNotFound"
    by (intro statObject_missing) simp_all
  with n show "getFile cfg st identifier = Inl NotFound"
    by (simp add: getFile_def fileExists_def)
next
  assume "\<not> reachable st"
  then show "getFileById cfg st identifier = Inl InternalServerError"
    by (simp add: getFileById_def listObjectsV2_def)
next
  assume "\<not> reachable st"
  then show "getFile cfg st identifier = Inl ClientError"
    by (simp add: getFile_def fileExists_def statObject_def)
qed

text \<open>
  C5 on the example bucket: a full name resolves to its own object although an earlier
  name contains \<open>report\<close> too, the fragment \<open>report\<close> resolves to the first of the two
  reports, \<open>zzz\<close> is NotFound, and an unreachable store is an error of another kind.
\<close>

theorem getFile_resolution_witness:
  "wf_store example_store \<and> reachable example_store
   \<and> getFile example_config example_store ''18-bb-report.pdf''
       = Inr \<lparr>f_bucket = ''files'', f_objectName = ''18-bb-report.pdf'', f_etag = ''e2'',
              f_versionId = Some ''v7'', f_size = 200,
              f_mimetype = ''application/octet-stream'',
              f_url = ''http://localhost:9000/files/18-bb-report.pdf''\<rparr>
   \<and> getFile example_config example_store ''report''
       = Inr \<lparr>f_bucket = ''files'', f_objectName = ''17-aa-report.pdf'', f_etag = ''e1'',
              f_versionId = None, f_size = 100, f_mimetype = ''application/pdf'',
              f_url = ''http://localhost:9000/files/17-aa-report.pdf''\<rparr>
   \<and> getFile example_config example_store ''zzz'' = Inl NotFound
   \<and> getFileById example_config example_store ''zzz'' = Inr None
   \<and> getFile example_config (example_store\<lparr>reachable := False\<rparr>) ''zzz'' = Inl ClientError"
proof -
  note ex = example_store_def report_a_def report_b_def photo_c_def
  note cf = example_config_def getFilePublicUrl_def mimetype_of_def or_default_def
  have wf: "wf_store example_store" by (simp add: wf_store_def ex)
  have wf': "wf_store (example_store\<lparr>reachable := False\<rparr>)" by (simp add: wf_store_def ex)
  have re: "reachable example_store" by (simp add: ex)
  \<comment> \<open>the exact name\<close>
  have b: "report_b \<in> set (objects example_store)"
    and hb: "reachable example_store \<and> o_name report_b = ''18-bb-report.pdf''"
    by (simp_all add: ex)
  from getFile_resolution [OF wf, where cfg = example_config and ?identifier = "''18-bb-report.pdf''", THEN conjunct1, rule_format, OF b hb]
  have r1: "getFile example_config example_store ''18-bb-report.pdf''
       = Inr \<lparr>f_bucket = ''files'', f_objectName = ''18-bb-report.pdf'', f_etag = ''e2'',
              f_versionId = Some ''v7'', f_size = 200,
              f_mimetype = ''application/octet-stream'',
              f_url = ''http://localhost:9000/files/18-bb-report.pdf''\<rparr>"
    by (simp add: cf report_b_def)
  \<comment> \<open>a fragment of a name\<close>
  have ha: "reachable example_store
         \<and> (\<forall>x\<in>set (objects example_store). o_name x \<noteq> ''report'')
         \<and> objects example_store = [] @ report_a # [report_b, photo_c]
         \<and> (\<forall>p\<in>set []. \<not> sublist ''report'' (o_name p))
         \<and> sublist ''report'' (o_name report_a)"
    by (simp add: ex str_includes_sublist [symmetric])
  from getFile_resolution [OF wf, where cfg = example_config and ?identifier = "''report''", THEN conjunct2, THEN conjunct1, rule_format, OF ha]
  have r2: "getFile example_config example_store ''report''
       = Inr \<lparr>f_bucket = ''files'', f_objectName = ''17-aa-report.pdf'', f_etag = ''e1'',
              f_versionId = None, f_size = 100, f_mimetype = ''application/pdf'',
              f_url = ''http://localhost:9000/files/17-aa-report.pdf''\<rparr>"
    by (simp add: cf report_a_def)
  \<comment> \<open>no match\<close>
  have hz: "reachable example_store
         \<and> (\<forall>x\<in>set (objects example_store). \<not> sublist ''zzz'' (o_name x))"
    by (simp add: ex str_includes_sublist [symmetric])
  from getFile_resolution [OF wf, where cfg = example_config and ?identifier = "''zzz''", THEN conjunct2, THEN conjunct2, THEN conjunct1,
      rule_format, OF hz]
  have r3: "getFile example_config example_store ''zzz'' = Inl NotFound"
    and r4: "getFileById example_config example_store ''zzz'' = Inr None"
    by simp_all
  \<comment> \<open>the store does not answer\<close>
  have hu: "\<not> reachable (example_store\<lparr>reachable := False\<rparr>)" by simp
  from getFile_resolution [OF wf', where cfg = example_config and ?identifier = "''zzz''",
      THEN conjunct2, THEN conjunct2, THEN conjunct2, rule_format, OF hu]
  have r5: "getFile example_config (example_store\<lparr>reachable := False\<rparr>) ''zzz'' = Inl ClientError"
    by simp
  from wf re r1 r2 r3 r4 r5 show ?thesis by (intro conjI)
qed

end
